theory Spec2Isabelle
  imports Complex_Main "HOL-Library.Word"
begin

unbundle bit_operations_syntax

section \<open>JavaScript numbers\<close>

text \<open>
  A JavaScript number is an IEEE 754 binary64 value.  A finite number is modelled by the
  rational it denotes, and an arithmetic operation by the exact operation followed by
  rounding to nearest, ties to even, at 53 significant bits.  \<open>NaN\<close>, the infinities and
  the sign of zero are not represented; the numbers of this development stay finite.
\<close>

definition round_half_even :: "rat \<Rightarrow> int" where
  "round_half_even x =
     (let f = \<lfloor>x\<rfloor>; r = x - of_int f
      in if r < 1 / 2 then f else if 1 / 2 < r then f + 1 else if even f then f else f + 1)"

text \<open>
  Rounding of a non-negative \<open>x\<close> in the normal range: scale \<open>x\<close> by powers of two into
  \<open>[2^52, 2^53)\<close>, round to an integer, scale back.  The first argument bounds the number
  of scaling steps; the exponent range of binary64 needs fewer than 1100.
\<close>

fun round_sig :: "nat \<Rightarrow> rat \<Rightarrow> rat" where
  "round_sig 0 x = x"
| "round_sig (Suc k) x =
     (if 2 ^ 53 \<le> x then 2 * round_sig k (x / 2)
      else if x < 2 ^ 52 then round_sig k (2 * x) / 2
      else of_int (round_half_even x))"

text \<open>
  \<open>fl x\<close> is the binary64 number nearest to \<open>x\<close>.  Below \<open>2^-1022\<close> the numbers are
  subnormal and multiples of \<open>2^-1074\<close>.
\<close>

definition fl :: "rat \<Rightarrow> rat" where
  "fl x =
     (let a = \<bar>x\<bar>;
          r = (if a < 1 / 2 ^ 1022 then of_int (round_half_even (a * 2 ^ 1074)) / 2 ^ 1074
               else round_sig 1100 a)
      in if x < 0 then - r else r)"

definition js_add :: "rat \<Rightarrow> rat \<Rightarrow> rat" where
  "js_add a b = fl (a + b)"

definition js_mul :: "rat \<Rightarrow> rat \<Rightarrow> rat" where
  "js_mul a b = fl (a * b)"

text \<open>Division, for a divisor other than zero.\<close>

definition js_div :: "rat \<Rightarrow> rat \<Rightarrow> rat" where
  "js_div a b = fl (a / b)"

text \<open>\<open>Math.round\<close>: the nearest integer, a tie going up.\<close>

definition Math_round :: "rat \<Rightarrow> int" where
  "Math_round x = \<lfloor>x + 1 / 2\<rfloor>"

section \<open>Wire codec: buffers and JavaScript values\<close>

text \<open>
  A Node.js \<open>Buffer\<close> is a list of bytes.  Indexing a buffer outside its range does not
  throw in JavaScript: it yields \<open>undefined\<close>, modelled as \<open>None\<close>.
\<close>

type_synonym byte = "8 word"
type_synonym buffer = "byte list"

definition buf_at :: "buffer \<Rightarrow> nat \<Rightarrow> byte option" where
  "buf_at buffer i = (if i < length buffer then Some (buffer ! i) else None)"

text \<open>Decimal rendering of a non-negative integer, as a template literal prints it.\<close>

definition digit_char :: "nat \<Rightarrow> char" where
  "digit_char d = ''0123456789'' ! d"

fun decimal :: "nat \<Rightarrow> string" where
  "decimal n =
     (if n < 10 then [digit_char n]
      else decimal (n div 10) @ [digit_char (n mod 10)])"

declare decimal.simps [simp del]

text \<open>\<open>`${v}`\<close> for a value read from a buffer: a byte prints in decimal, \<open>undefined\<close> by name.\<close>

definition template_byte :: "byte option \<Rightarrow> string" where
  "template_byte v = (case v of None \<Rightarrow> ''undefined'' | Some b \<Rightarrow> decimal (unat b))"

text \<open>\<open>ToInt32\<close> of a value read from a buffer: \<open>undefined\<close> becomes 0.\<close>

definition to_int32 :: "byte option \<Rightarrow> nat" where
  "to_int32 v = (case v of None \<Rightarrow> 0 | Some b \<Rightarrow> unat b)"

section \<open>Directory response (\<open>discoverFromSteamMaster\<close>, the message handler)\<close>

text \<open>
  \<^verbatim>\<open>const ip = `${msg[offset]}.${msg[offset+1]}.${msg[offset+2]}.${msg[offset+3]}`;\<close>
  \<^verbatim>\<open>const port = (msg[offset+4] << 8) | msg[offset+5];\<close>
  \<^verbatim>\<open>servers.push(`${ip}:${port}`);\<close>
\<close>

definition record_ip :: "buffer \<Rightarrow> nat \<Rightarrow> string" where
  "record_ip msg offset =
     template_byte (buf_at msg offset) @ ''.'' @ template_byte (buf_at msg (offset + 1)) @ ''.'' @
     template_byte (buf_at msg (offset + 2)) @ ''.'' @ template_byte (buf_at msg (offset + 3))"

definition record_port :: "buffer \<Rightarrow> nat \<Rightarrow> nat" where
  "record_port msg offset =
     push_bit 8 (to_int32 (buf_at msg (offset + 4))) OR to_int32 (buf_at msg (offset + 5))"

definition server_entry :: "buffer \<Rightarrow> nat \<Rightarrow> string" where
  "server_entry msg offset = record_ip msg offset @ '':'' @ decimal (record_port msg offset)"

text \<open>
  The loop \<^verbatim>\<open>while (offset < msg.length - 6) { ...; offset += 6; }\<close>.  The
  comparison is made on integers: \<open>msg.length - 6\<close> is negative for a short datagram.
\<close>

function parse_master_loop :: "buffer \<Rightarrow> nat \<Rightarrow> string list \<Rightarrow> string list" where
  "parse_master_loop msg offset servers =
     (if int offset < int (length msg) - 6
      then parse_master_loop msg (offset + 6) (servers @ [server_entry msg offset])
      else servers)"
  by pat_completeness auto
termination
  by (relation "measure (\<lambda>(msg, offset, servers). length msg - offset)") auto

declare parse_master_loop.simps [simp del]

text \<open>The handler starts at offset 6 and appends to the list shared by all datagrams.\<close>

definition on_master_message :: "string list \<Rightarrow> buffer \<Rightarrow> string list" where
  "on_master_message servers msg = parse_master_loop msg 6 servers"

section \<open>Info and player responses (\<open>readString\<close>, \<open>parseA2SInfo\<close>, \<open>parseA2SPlayer\<close>)\<close>

text \<open>
  A JavaScript string is modelled by the bytes of its UTF-8 encoding, one character of
  \<^typ>\<open>string\<close> per byte.  \<open>buf.toString('utf8')\<close> decodes the bytes and replaces every
  ill-formed part by U+FFFD, whose encoding is \<open>EF BF BD\<close>; in this representation it keeps
  each well-formed sequence and writes these three bytes for each ill-formed part.  The
  decoder is the one of the Encoding standard: a lead byte fixes how many continuation
  bytes are needed and the range of the first of them; a byte outside the range ends the
  sequence with one U+FFFD and is read again as a first byte; a sequence cut by the end
  of the input gives one U+FFFD.
\<close>

datatype utf8_state = Idle | Pending buffer nat nat nat

definition replacement :: buffer where
  "replacement = [0xEF, 0xBF, 0xBD]"

text \<open>A byte read when no sequence is open: the bytes written and the state after it.\<close>

definition utf8_lead :: "byte \<Rightarrow> buffer \<times> utf8_state" where
  "utf8_lead b =
     (let n = unat b in
      if n \<le> 0x7F then ([b], Idle)
      else if 0xC2 \<le> n \<and> n \<le> 0xDF then ([], Pending [b] 1 0x80 0xBF)
      else if 0xE0 \<le> n \<and> n \<le> 0xEF
        then ([], Pending [b] 2 (if n = 0xE0 then 0xA0 else 0x80) (if n = 0xED then 0x9F else 0xBF))
      else if 0xF0 \<le> n \<and> n \<le> 0xF4
        then ([], Pending [b] 3 (if n = 0xF0 then 0x90 else 0x80) (if n = 0xF4 then 0x8F else 0xBF))
      else (replacement, Idle))"

text \<open>
  \<open>Pending seen needed lower upper\<close> is an open sequence: the bytes read so far, the
  number of continuation bytes still needed and the range of the next one.
\<close>

fun utf8_decode :: "utf8_state \<Rightarrow> buffer \<Rightarrow> buffer" where
  "utf8_decode Idle [] = []"
| "utf8_decode (Pending seen needed lower upper) [] = replacement"
| "utf8_decode Idle (b # bs) = (case utf8_lead b of (out, st) \<Rightarrow> out @ utf8_decode st bs)"
| "utf8_decode (Pending seen needed lower upper) (b # bs) =
     (if lower \<le> unat b \<and> unat b \<le> upper then
        (if needed = 1 then seen @ [b] @ utf8_decode Idle bs
         else utf8_decode (Pending (seen @ [b]) (needed - 1) 0x80 0xBF) bs)
      else replacement @ (case utf8_lead b of (out, st) \<Rightarrow> out @ utf8_decode st bs))"

definition utf8_text :: "buffer \<Rightarrow> string" where
  "utf8_text bytes = map (\<lambda>b. char_of (unat b)) (utf8_decode Idle bytes)"

text \<open>\<open>buffer.slice(start, end)\<close> clamps both ends to the buffer and never throws.\<close>

definition slice :: "buffer \<Rightarrow> nat \<Rightarrow> nat \<Rightarrow> buffer" where
  "slice buffer start stop = take (stop - start) (drop start buffer)"

text \<open>The object \<open>{ value, length }\<close> that \<open>readString\<close> returns.\<close>

record read_result =
  str_value :: string
  str_length :: nat

text \<open>
  \<^verbatim>\<open>while (offset + length < buffer.length && buffer[offset + length] !== 0) length++;\<close>
\<close>

function readString_loop :: "buffer \<Rightarrow> nat \<Rightarrow> nat \<Rightarrow> nat" where
  "readString_loop buffer offset len =
     (if offset + len < length buffer \<and> buf_at buffer (offset + len) \<noteq> Some 0
      then readString_loop buffer offset (len + 1)
      else len)"
  by pat_completeness auto
termination
  by (relation "measure (\<lambda>(buffer, offset, len). length buffer - (offset + len))") auto

declare readString_loop.simps [simp del]

definition readString :: "buffer \<Rightarrow> nat \<Rightarrow> read_result" where
  "readString buffer offset =
     (let len = readString_loop buffer offset 0
      in \<lparr>str_value = utf8_text (slice buffer offset (offset + len)), str_length = len\<rparr>)"

text \<open>
  \<open>String.fromCharCode(v)\<close> for a value read from a buffer: the character with the code
  of the byte, which has a two-byte encoding from \<open>0x80\<close> on; \<open>undefined\<close> gives code 0.
\<close>

definition fromCharCode :: "byte option \<Rightarrow> string" where
  "fromCharCode v =
     (case v of
        None \<Rightarrow> [char_of (0 :: nat)]
      | Some b \<Rightarrow>
          (if unat b < 0x80 then [char_of (unat b)]
           else [char_of (0xC0 + unat b div 0x40), char_of (0x80 + unat b mod 0x40)]))"

text \<open>
  The object \<open>info\<close> of \<open>parseA2SInfo\<close>.  Its fields carry the prefix \<open>info_\<close>.  The
  field \<open>name\<close> is assigned the result object of \<open>readString\<close>; the other string fields
  are assigned the \<open>value\<close> of their result.  A single-byte field read past the end of
  the buffer is \<open>undefined\<close> (\<open>None\<close>).
\<close>

record a2s_info =
  info_protocol :: "byte option"
  info_name :: read_result
  info_map :: string
  info_folder :: string
  info_game :: string
  info_players :: "byte option"
  info_max_players :: "byte option"
  info_bots :: "byte option"
  info_server_type :: string
  info_environment :: string
  info_visibility :: "byte option"
  info_vac :: "byte option"
  info_version :: string
  info_port :: nat
  info_tags :: string

text \<open>
  The only error a decoder can raise is the one its \<open>catch\<close> block rethrows,
  \<open>Failed to parse A2S_INFO: \<dots>\<close> or \<open>Failed to parse A2S_PLAYER: \<dots>\<close>, around the
  message of the exception caught.
\<close>

datatype parse_error = Failed_to_parse_A2S_INFO string | Failed_to_parse_A2S_PLAYER string

text \<open>
  \<open>parseA2SInfo\<close>.  No statement of its \<open>try\<close> block can throw on a buffer: indexing and
  \<open>slice\<close> are total, and \<open>readString\<close> stops at the end of the buffer.  The \<open>catch\<close>
  block is therefore never entered and the function always returns \<open>info\<close>.
\<close>

definition parseA2SInfo :: "buffer \<Rightarrow> parse_error + a2s_info" where
  "parseA2SInfo buffer =
     (let offset = 4;
          protocol = buf_at buffer offset;
          offset = offset + 1;
          name = readString buffer offset;
          offset = offset + (str_length name + 1);
          mapResult = readString buffer offset;
          offset = offset + (str_length mapResult + 1);
          folderResult = readString buffer offset;
          offset = offset + (str_length folderResult + 1);
          gameResult = readString buffer offset;
          offset = offset + (str_length gameResult + 1);
          players = buf_at buffer offset;
          max_players = buf_at buffer (offset + 1);
          bots = buf_at buffer (offset + 2);
          server_type = fromCharCode (buf_at buffer (offset + 3));
          environment = fromCharCode (buf_at buffer (offset + 4));
          visibility = buf_at buffer (offset + 5);
          vac = buf_at buffer (offset + 6);
          offset = offset + 7;
          versionResult = readString buffer offset
      in Inr \<lparr>info_protocol = protocol, info_name = name, info_map = str_value mapResult,
              info_folder = str_value folderResult, info_game = str_value gameResult,
              info_players = players, info_max_players = max_players, info_bots = bots,
              info_server_type = server_type, info_environment = environment,
              info_visibility = visibility, info_vac = vac,
              info_version = str_value versionResult, info_port = 0, info_tags = []\<rparr>)"

text \<open>
  One entry of the player list.  The duration is kept as the four bytes of the
  little-endian float, which are not decoded.
\<close>

record player =
  player_index :: "byte option"
  player_name :: string
  player_score :: int
  player_duration :: "32 word"

text \<open>
  \<open>buffer.readInt32LE(offset)\<close> and \<open>buffer.readFloatLE(offset)\<close> throw a \<open>RangeError\<close>
  unless the four bytes at \<open>offset\<close> lie inside the buffer.
\<close>

definition read_u32le :: "buffer \<Rightarrow> nat \<Rightarrow> (32 word) option" where
  "read_u32le buffer offset =
     (if offset + 4 \<le> length buffer
      then Some (word_of_nat (unat (buffer ! offset) + 2 ^ 8 * unat (buffer ! (offset + 1)) +
                 2 ^ 16 * unat (buffer ! (offset + 2)) + 2 ^ 24 * unat (buffer ! (offset + 3))))
      else None)"

text \<open>
  The loop \<^verbatim>\<open>for (let i = 0; i < playerCount && offset < buffer.length; i++)\<close>, by
  recursion on the number of players still to read.
\<close>

fun parseA2SPlayer_loop :: "buffer \<Rightarrow> nat \<Rightarrow> nat \<Rightarrow> player list \<Rightarrow> parse_error + player list" where
  "parseA2SPlayer_loop buffer 0 offset players = Inr players"
| "parseA2SPlayer_loop buffer (Suc n) offset players =
     (if offset < length buffer then
        (let index = buf_at buffer offset;
             offset = offset + 1;
             nameResult = readString buffer offset;
             offset = offset + (str_length nameResult + 1)
         in case read_u32le buffer offset of
              None \<Rightarrow> Inl (Failed_to_parse_A2S_PLAYER ''ERR_OUT_OF_RANGE'')
            | Some score \<Rightarrow>
                (case read_u32le buffer (offset + 4) of
                   None \<Rightarrow> Inl (Failed_to_parse_A2S_PLAYER ''ERR_OUT_OF_RANGE'')
                 | Some duration \<Rightarrow>
                     parseA2SPlayer_loop buffer n (offset + 8)
                       (players @ [\<lparr>player_index = index, player_name = str_value nameResult,
                                    player_score = sint score, player_duration = duration\<rparr>])))
      else Inr players)"

text \<open>A missing count byte is \<open>undefined\<close>; \<open>0 < undefined\<close> is false and the list is empty.\<close>

definition parseA2SPlayer :: "buffer \<Rightarrow> parse_error + player list" where
  "parseA2SPlayer buffer = parseA2SPlayer_loop buffer (to_int32 (buf_at buffer 5)) 6 []"

section \<open>Persistence: the SQLite tables and the statements run on them\<close>

text \<open>
  A stored value, and a JavaScript value passed as a statement parameter.  The driver
  binds a string as text, a number as an integer or a real, a boolean as 1 or 0,
  \<open>undefined\<close> and \<open>null\<close> as \<open>NULL\<close>, and any other object as the text of its default
  string conversion, \<open>[object Object]\<close>.
\<close>

datatype sql_value = SqlNull | SqlInteger int | SqlReal rat | SqlText string

datatype js_value =
  JUndefined | JNull | JBool bool | JNum rat | JStr string | JObj read_result

definition sql_bind :: "js_value \<Rightarrow> sql_value" where
  "sql_bind v =
     (case v of
        JUndefined \<Rightarrow> SqlNull
      | JNull \<Rightarrow> SqlNull
      | JBool b \<Rightarrow> SqlInteger (if b then 1 else 0)
      | JNum q \<Rightarrow> (if q = of_int \<lfloor>q\<rfloor> then SqlInteger \<lfloor>q\<rfloor> else SqlReal q)
      | JStr s \<Rightarrow> SqlText s
      | JObj obj \<Rightarrow> SqlText ''[object Object]'')"

text \<open>Truthiness, and \<open>a || b\<close>.\<close>

definition truthy :: "js_value \<Rightarrow> bool" where
  "truthy v =
     (case v of
        JUndefined \<Rightarrow> False
      | JNull \<Rightarrow> False
      | JBool b \<Rightarrow> b
      | JNum q \<Rightarrow> q \<noteq> 0
      | JStr s \<Rightarrow> s \<noteq> []
      | JObj obj \<Rightarrow> True)"

definition js_or :: "js_value \<Rightarrow> js_value \<Rightarrow> js_value" where
  "js_or a b = (if truthy a then a else b)"

text \<open>\<open>CURRENT_TIMESTAMP\<close>, in seconds.\<close>

type_synonym timestamp = int

text \<open>
  A row of \<open>servers\<close>, columns in the order of \<open>CREATE TABLE\<close>, with the prefix
  \<open>srv_\<close>.  \<open>ip\<close> and \<open>port\<close> are \<open>NOT NULL\<close> and form the \<open>UNIQUE(ip, port)\<close> key.
\<close>

record server_row =
  srv_id :: nat
  srv_ip :: string
  srv_port :: int
  srv_name :: sql_value
  srv_map :: sql_value
  srv_description :: sql_value
  srv_tags :: sql_value
  srv_max_players :: sql_value
  srv_password_protected :: sql_value
  srv_secure :: sql_value
  srv_version :: sql_value
  srv_os :: sql_value
  srv_game_id :: sql_value
  srv_first_seen :: timestamp
  srv_last_seen :: timestamp
  srv_is_active :: sql_value
  srv_country :: sql_value
  srv_region :: sql_value

text \<open>A row of \<open>server_snapshots\<close>, with the prefix \<open>snap_\<close>.\<close>

record snapshot_row =
  snap_id :: nat
  snap_server_id :: sql_value
  snap_snapshot_time :: timestamp
  snap_player_count :: sql_value
  snap_max_players :: sql_value
  snap_map :: sql_value
  snap_gamemode :: sql_value
  snap_gamemode_confidence :: sql_value
  snap_is_polish_server :: sql_value
  snap_polish_confidence :: sql_value
  snap_ping_ms :: sql_value

text \<open>A row of \<open>polish_server_predictions\<close>, with the prefix \<open>pred_\<close>.\<close>

record prediction_row =
  pred_id :: nat
  pred_server_id :: sql_value
  pred_is_polish_predicted :: sql_value
  pred_confidence :: sql_value
  pred_prediction_reason :: sql_value
  pred_features_json :: sql_value
  pred_prediction_time :: timestamp
  pred_needs_review :: sql_value
  pred_manual_feedback :: sql_value
  pred_feedback_time :: sql_value
  pred_feedback_reason :: sql_value
  pred_model_version :: sql_value

text \<open>
  The database: each table is the list of its rows in insertion order; an
  \<open>AUTOINCREMENT\<close> table also remembers the largest id it has ever handed out.
\<close>

record database =
  servers_table :: "server_row list"
  servers_seq :: nat
  server_snapshots_table :: "snapshot_row list"
  server_snapshots_seq :: nat
  polish_server_predictions_table :: "prediction_row list"

text \<open>The object \<open>serverData\<close> handed to \<open>insertServer\<close>, with the prefix \<open>sd_\<close>.\<close>

record server_data =
  sd_ip :: string
  sd_port :: int
  sd_name :: js_value
  sd_map :: js_value
  sd_description :: js_value
  sd_tags :: js_value
  sd_max_players :: js_value
  sd_password_protected :: js_value
  sd_secure :: js_value
  sd_version :: js_value
  sd_os :: js_value
  sd_game_id :: js_value
  sd_country :: js_value
  sd_region :: js_value

definition same_server :: "string \<Rightarrow> int \<Rightarrow> server_row \<Rightarrow> bool" where
  "same_server ip port r = (srv_ip r = ip \<and> srv_port r = port)"

text \<open>
  The row that \<open>INSERT OR REPLACE INTO servers (ip, port, name, \<dots>, region, last_seen)
  VALUES (?, \<dots>, ?, CURRENT_TIMESTAMP)\<close> writes: the fourteen parameters, the current
  time for \<open>last_seen\<close>, and the column defaults for the columns the statement does not
  name, which are a fresh \<open>id\<close>, \<open>first_seen = CURRENT_TIMESTAMP\<close> and \<open>is_active = 1\<close>.
\<close>

definition inserted_server_row :: "nat \<Rightarrow> timestamp \<Rightarrow> server_data \<Rightarrow> server_row" where
  "inserted_server_row new_id now serverData =
     \<lparr>srv_id = new_id, srv_ip = sd_ip serverData, srv_port = sd_port serverData,
      srv_name = sql_bind (sd_name serverData), srv_map = sql_bind (sd_map serverData),
      srv_description = sql_bind (sd_description serverData),
      srv_tags = sql_bind (sd_tags serverData),
      srv_max_players = sql_bind (sd_max_players serverData),
      srv_password_protected = sql_bind (sd_password_protected serverData),
      srv_secure = sql_bind (sd_secure serverData),
      srv_version = sql_bind (sd_version serverData), srv_os = sql_bind (sd_os serverData),
      srv_game_id = sql_bind (sd_game_id serverData),
      srv_first_seen = now, srv_last_seen = now, srv_is_active = SqlInteger 1,
      srv_country = sql_bind (sd_country serverData),
      srv_region = sql_bind (sd_region serverData)\<rparr>"

text \<open>
  \<open>insertServer\<close>.  On a conflict with \<open>UNIQUE(ip, port)\<close>, \<open>OR REPLACE\<close> deletes the
  row in conflict and then inserts the new row as a whole.  The statement is modelled
  where it succeeds.
\<close>

definition insertServer :: "timestamp \<Rightarrow> server_data \<Rightarrow> database \<Rightarrow> database" where
  "insertServer now serverData db =
     (let kept = filter (\<lambda>r. \<not> same_server (sd_ip serverData) (sd_port serverData) r) (servers_table db);
          new_id = Suc (servers_seq db)
      in db\<lparr>servers_table := kept @ [inserted_server_row new_id now serverData],
            servers_seq := new_id\<rparr>)"

text \<open>
  \<open>markServerOffline\<close>:
  \<open>UPDATE servers SET last_seen = CURRENT_TIMESTAMP WHERE ip = ? AND port = ?\<close>.
\<close>

definition markServerOffline :: "timestamp \<Rightarrow> string \<Rightarrow> int \<Rightarrow> database \<Rightarrow> database" where
  "markServerOffline now ip port db =
     db\<lparr>servers_table := map (\<lambda>r. if same_server ip port r then r\<lparr>srv_last_seen := now\<rparr> else r)
                        (servers_table db)\<rparr>"

text \<open>\<open>getServerId\<close>: \<open>SELECT id FROM servers WHERE ip = ? AND port = ?\<close>, first row or \<open>null\<close>.\<close>

definition getServerId :: "string \<Rightarrow> int \<Rightarrow> database \<Rightarrow> nat option" where
  "getServerId ip port db =
     (case filter (same_server ip port) (servers_table db) of [] \<Rightarrow> None | r # rs \<Rightarrow> Some (srv_id r))"

text \<open>The object \<open>snapshotData\<close> handed to \<open>createSnapshot\<close>, with the prefix \<open>sn_\<close>.\<close>

record snapshot_data =
  sn_server_id :: js_value
  sn_player_count :: js_value
  sn_max_players :: js_value
  sn_map :: js_value
  sn_gamemode :: js_value
  sn_gamemode_confidence :: js_value
  sn_is_polish_server :: js_value
  sn_polish_confidence :: js_value
  sn_ping_ms :: js_value

text \<open>\<open>createSnapshot\<close>: a plain \<open>INSERT\<close>; \<open>snapshot_time\<close> takes its default.\<close>

definition createSnapshot :: "timestamp \<Rightarrow> snapshot_data \<Rightarrow> database \<Rightarrow> database" where
  "createSnapshot now snapshotData db =
     (let new_id = Suc (server_snapshots_seq db)
      in db\<lparr>server_snapshots_table := server_snapshots_table db @
              [\<lparr>snap_id = new_id, snap_server_id = sql_bind (sn_server_id snapshotData),
                snap_snapshot_time = now,
                snap_player_count = sql_bind (sn_player_count snapshotData),
                snap_max_players = sql_bind (sn_max_players snapshotData),
                snap_map = sql_bind (sn_map snapshotData),
                snap_gamemode = sql_bind (sn_gamemode snapshotData),
                snap_gamemode_confidence = sql_bind (sn_gamemode_confidence snapshotData),
                snap_is_polish_server = sql_bind (sn_is_polish_server snapshotData),
                snap_polish_confidence = sql_bind (sn_polish_confidence snapshotData),
                snap_ping_ms = sql_bind (sn_ping_ms snapshotData)\<rparr>],
            server_snapshots_seq := new_id\<rparr>)"

text \<open>
  A comparison with \<open>NULL\<close> is never true; two values of one storage class are equal
  when they are the same value.
\<close>

definition sql_eq :: "sql_value \<Rightarrow> sql_value \<Rightarrow> bool" where
  "sql_eq a b = (a \<noteq> SqlNull \<and> b \<noteq> SqlNull \<and> a = b)"

text \<open>
  A column declared \<open>INTEGER\<close> has integer affinity.  Before such a column is compared
  with a statement parameter, SQLite applies numeric affinity to the parameter: a text
  that is a well-formed integer literal (spaces, an optional sign, decimal digits,
  spaces) within the 64-bit range is replaced by that integer.  An integer and a real
  are compared by their numeric values.  The conversion of a text holding a real
  literal, with a fraction or an exponent, is not modelled: such a text stays a text.
\<close>

definition is_sql_space :: "char \<Rightarrow> bool" where
  "is_sql_space c = (let n = (of_char c :: nat) in (9 \<le> n \<and> n \<le> 13) \<or> n = 32)"

definition is_sql_digit :: "char \<Rightarrow> bool" where
  "is_sql_digit c = (let n = (of_char c :: nat) in 48 \<le> n \<and> n \<le> 57)"

definition digits_value :: "string \<Rightarrow> int" where
  "digits_value ds = foldl (\<lambda>n c. 10 * n + (int (of_char c) - 48)) 0 ds"

definition integer_literal :: "string \<Rightarrow> int option" where
  "integer_literal s =
     (let body = dropWhile is_sql_space s;
          negative = (body \<noteq> [] \<and> hd body = CHR ''-'');
          signed = (body \<noteq> [] \<and> (hd body = CHR ''-'' \<or> hd body = CHR ''+''));
          rest = (if signed then tl body else body);
          ds = takeWhile is_sql_digit rest
      in if ds \<noteq> [] \<and> list_all is_sql_space (dropWhile is_sql_digit rest)
         then Some (if negative then - digits_value ds else digits_value ds)
         else None)"

definition numeric_affinity :: "sql_value \<Rightarrow> sql_value" where
  "numeric_affinity v =
     (case v of
        SqlText s \<Rightarrow>
          (case integer_literal s of
             Some i \<Rightarrow> if - (2 ^ 63) \<le> i \<and> i < 2 ^ 63 then SqlInteger i else v
           | None \<Rightarrow> v)
      | _ \<Rightarrow> v)"

definition sql_number :: "sql_value \<Rightarrow> rat option" where
  "sql_number v = (case v of SqlInteger i \<Rightarrow> Some (of_int i) | SqlReal q \<Rightarrow> Some q | _ \<Rightarrow> None)"

text \<open>\<open>column = ?\<close> for a column of integer affinity.\<close>

definition sql_eq_integer_column :: "sql_value \<Rightarrow> sql_value \<Rightarrow> bool" where
  "sql_eq_integer_column stored parameter =
     (let p = numeric_affinity parameter
      in case (sql_number stored, sql_number p) of
           (Some x, Some y) \<Rightarrow> x = y
         | _ \<Rightarrow> sql_eq stored p)"

text \<open>
  \<open>submitFeedback\<close>:
  \<open>UPDATE polish_server_predictions SET manual_feedback = ?, feedback_time =
  CURRENT_TIMESTAMP, feedback_reason = ? WHERE server_id = ? AND manual_feedback IS NULL\<close>.
  The parameter \<open>reason\<close> has the default \<open>''\<close>, taken when the argument is \<open>undefined\<close>.
\<close>

definition awaits_feedback :: "sql_value \<Rightarrow> prediction_row \<Rightarrow> bool" where
  "awaits_feedback serverId p =
     (sql_eq_integer_column (pred_server_id p) serverId \<and> pred_manual_feedback p = SqlNull)"

definition submitFeedback ::
    "timestamp \<Rightarrow> js_value \<Rightarrow> js_value \<Rightarrow> js_value \<Rightarrow> database \<Rightarrow> database" where
  "submitFeedback now serverId feedback reason db =
     db\<lparr>polish_server_predictions_table :=
          map (\<lambda>p. if awaits_feedback (sql_bind serverId) p
                    then p\<lparr>pred_manual_feedback := sql_bind feedback,
                           pred_feedback_time := SqlInteger now,
                           pred_feedback_reason :=
                             sql_bind (if reason = JUndefined then JStr [] else reason)\<rparr>
                    else p)
              (polish_server_predictions_table db)\<rparr>"

text \<open>
  The name column as the dashboard queries select it:
  \<open>CASE WHEN name = '[object Object]' OR name IS NULL THEN 'Unknown Server' ELSE name END\<close>.
\<close>

definition dashboard_name :: "sql_value \<Rightarrow> sql_value" where
  "dashboard_name name =
     (if sql_eq name (SqlText ''[object Object]'') \<or> name = SqlNull then SqlText ''Unknown Server''
      else name)"

section \<open>Regular expressions\<close>

text \<open>
  The patterns of the services use literals, alternation, \<open>\s*\<close> and \<open>\b\<close>, all with flag
  \<open>i\<close>.  Characters are modelled as 8-bit codes and letters as the ASCII letters.
\<close>

datatype regex =
    Lit string
  | Whitespaces
  | WordBoundary
  | Seq regex regex
  | Alt regex regex

definition is_word_char :: "char \<Rightarrow> bool" where
  "is_word_char c =
     (let n = of_char c :: nat
      in (48 \<le> n \<and> n \<le> 57) \<or> (65 \<le> n \<and> n \<le> 90) \<or> n = 95 \<or> (97 \<le> n \<and> n \<le> 122))"

definition is_space_char :: "char \<Rightarrow> bool" where
  "is_space_char c = (let n = of_char c :: nat in (9 \<le> n \<and> n \<le> 13) \<or> n = 32 \<or> n = 160)"

definition lower_char :: "char \<Rightarrow> char" where
  "lower_char c = (let n = of_char c :: nat in if 65 \<le> n \<and> n \<le> 90 then char_of (n + 32) else c)"

text \<open>\<open>toLowerCase\<close>.\<close>

definition toLowerCase :: "string \<Rightarrow> string" where
  "toLowerCase s = map lower_char s"

text \<open>\<open>\b\<close> holds at position \<open>i\<close> when exactly one of the characters around it is a word character.\<close>

definition at_boundary :: "string \<Rightarrow> nat \<Rightarrow> bool" where
  "at_boundary text i =
     ((0 < i \<and> i \<le> length text \<and> is_word_char (text ! (i - 1))) \<noteq>
      (i < length text \<and> is_word_char (text ! i)))"

text \<open>
  Backtracking matching: \<open>match_ends r text i\<close> lists the positions at which a match of
  \<open>r\<close> that starts at \<open>i\<close> can end, in the order in which a backtracking matcher tries
  them: the left alternative first, the longest run of white space first.
\<close>

fun match_ends :: "regex \<Rightarrow> string \<Rightarrow> nat \<Rightarrow> nat list" where
  "match_ends (Lit s) text i =
     (if i + length s \<le> length text \<and>
         map lower_char (take (length s) (drop i text)) = map lower_char s
      then [i + length s] else [])"
| "match_ends Whitespaces text i =
     rev (map (\<lambda>n. i + n) [0..<Suc (length (takeWhile is_space_char (drop i text)))])"
| "match_ends WordBoundary text i = (if at_boundary text i then [i] else [])"
| "match_ends (Seq r1 r2) text i = concat (map (match_ends r2 text) (match_ends r1 text i))"
| "match_ends (Alt r1 r2) text i = match_ends r1 text i @ match_ends r2 text i"

text \<open>
  \<open>pattern.exec(text)\<close> for a pattern without flag \<open>g\<close>: the match at the leftmost start
  position that has one, as its start and end.
\<close>

definition regex_exec :: "regex \<Rightarrow> string \<Rightarrow> (nat \<times> nat) option" where
  "regex_exec r text =
     (case filter (\<lambda>i. match_ends r text i \<noteq> []) [0..<Suc (length text)] of
        [] \<Rightarrow> None
      | i # rest \<Rightarrow> Some (i, hd (match_ends r text i)))"

text \<open>\<open>pattern.test(text)\<close>, and the length of \<open>text.match(pattern)[0]\<close>.\<close>

definition regex_test :: "regex \<Rightarrow> string \<Rightarrow> bool" where
  "regex_test r text = (regex_exec r text \<noteq> None)"

definition match_length :: "regex \<Rightarrow> string \<Rightarrow> nat option" where
  "match_length r text = (case regex_exec r text of None \<Rightarrow> None | Some (i, e) \<Rightarrow> Some (e - i))"

text \<open>\<open>/\b(a|b|...)\b/i\<close>.\<close>

definition whole_word :: "regex \<Rightarrow> regex" where
  "whole_word r = Seq WordBoundary (Seq r WordBoundary)"

section \<open>Scanner service (\<open>queryServer\<close>, \<open>saveServerData\<close>, \<open>isPolishServer\<close>)\<close>

text \<open>
  What a query socket delivers first: nothing before the timeout, an error, or a
  datagram.  A query promise is rejected with an error or resolved with a value.
\<close>

datatype reply = Timeout | SocketError string | Message buffer

datatype query_error =
    Query_timeout
  | Player_query_timeout
  | Socket_error string
  | Parse_error parse_error
  | Storage_error string

definition queryServerInfo :: "reply \<Rightarrow> query_error + a2s_info" where
  "queryServerInfo r =
     (case r of
        Timeout \<Rightarrow> Inl Query_timeout
      | SocketError err \<Rightarrow> Inl (Socket_error err)
      | Message msg \<Rightarrow>
          (case parseA2SInfo msg of Inl parseError \<Rightarrow> Inl (Parse_error parseError)
                                  | Inr serverInfo \<Rightarrow> Inr serverInfo))"

definition queryServerPlayers :: "reply \<Rightarrow> query_error + player list" where
  "queryServerPlayers r =
     (case r of
        Timeout \<Rightarrow> Inl Player_query_timeout
      | SocketError err \<Rightarrow> Inl (Socket_error err)
      | Message msg \<Rightarrow>
          (case parseA2SPlayer msg of Inl parseError \<Rightarrow> Inl (Parse_error parseError)
                                    | Inr playerInfo \<Rightarrow> Inr playerInfo))"

text \<open>
  \<open>Promise.all([a, b])\<close> is resolved with both values when both promises are resolved
  and is rejected as soon as one of them is rejected.  When both are rejected the error
  is that of the one rejected first; the model takes the first promise's, and
  \<open>queryServer\<close> only logs it.
\<close>

definition promise_all :: "'e + 'a \<Rightarrow> 'e + 'b \<Rightarrow> 'e + 'a \<times> 'b" where
  "promise_all a b =
     (case a of
        Inl err \<Rightarrow> Inl err
      | Inr x \<Rightarrow> (case b of Inl err \<Rightarrow> Inl err | Inr y \<Rightarrow> Inr (x, y)))"

text \<open>
  \<open>polishIndicators\<close> of the scanner, and \<open>isPolishServer\<close>.  In the template literal
  the object \<open>serverInfo.name\<close> prints as \<open>[object Object]\<close>.
\<close>

definition polishIndicators :: "regex list" where
  "polishIndicators =
     [whole_word (Alt (Lit ''pl'') (Alt (Lit ''poland'') (Alt (Lit ''polska'') (Lit ''polish'')))),
      whole_word (Alt (Lit ''warszawa'') (Alt (Lit ''krakow'')
        (Alt (Lit ''gdansk'') (Alt (Lit ''wroclaw'') (Lit ''poznan''))))),
      Lit ''[pl]'',
      Lit ''polska'',
      whole_word (Lit ''pl'')]"

definition isPolishServer :: "a2s_info option \<Rightarrow> bool" where
  "isPolishServer serverInfo =
     (case serverInfo of
        None \<Rightarrow> False
      | Some info \<Rightarrow>
          (let textToCheck = toLowerCase (''[object Object]'' @ '' '' @ info_tags info)
           in list_ex (\<lambda>pattern. regex_test pattern textToCheck) polishIndicators))"

text \<open>A single-byte field as a JavaScript value, and a string field.\<close>

definition js_byte :: "byte option \<Rightarrow> js_value" where
  "js_byte v = (case v of None \<Rightarrow> JUndefined | Some b \<Rightarrow> JNum (of_nat (unat b)))"

text \<open>
  What the storage does during one \<open>saveServerData\<close>: every statement succeeds, or
  \<open>insertServer\<close> fails, or \<open>createSnapshot\<close> fails after the server row is written.
\<close>

datatype storage = Stored | InsertServer_fails string | CreateSnapshot_fails string

text \<open>
  \<open>saveServerData\<close>.  \<open>serverInfo?.field || fallback\<close> is the fallback when \<open>serverInfo\<close>
  is missing or the field is falsy.  The result is the error rethrown, with the database
  as it is then, or the database after both statements.
\<close>

definition saveServerData ::
    "storage \<Rightarrow> timestamp \<Rightarrow> string \<Rightarrow> int \<Rightarrow> a2s_info option \<Rightarrow> player list option \<Rightarrow> database
      \<Rightarrow> (query_error \<times> database) + database" where
  "saveServerData st now ip port serverInfo playerInfo db =
     (let field = (\<lambda>f. case serverInfo of None \<Rightarrow> JUndefined | Some info \<Rightarrow> f info);
          serverData =
            \<lparr>sd_ip = ip, sd_port = port,
             sd_name = js_or (field (\<lambda>info. JObj (info_name info))) (JStr ''Unknown''),
             sd_map = js_or (field (\<lambda>info. JStr (info_map info))) (JStr ''Unknown''),
             sd_description = JStr [],
             sd_tags = js_or (field (\<lambda>info. JStr (info_tags info))) (JStr []),
             sd_max_players = js_or (field (\<lambda>info. js_byte (info_max_players info))) (JNum 0),
             sd_password_protected =
               JBool (field (\<lambda>info. js_byte (info_visibility info)) = JNum 1),
             sd_secure = JBool (field (\<lambda>info. js_byte (info_vac info)) = JNum 1),
             sd_version = js_or (field (\<lambda>info. JStr (info_version info))) (JStr []),
             sd_os = js_or (field (\<lambda>info. JStr (info_environment info))) (JStr ''l''),
             sd_game_id = JNum 4000, sd_country = JStr ''Unknown'', sd_region = JStr ''Unknown''\<rparr>
      in case st of
           InsertServer_fails err \<Rightarrow> Inl (Storage_error err, db)
         | _ \<Rightarrow>
             (let db = insertServer now serverData db;
                  snapshotData =
                    \<lparr>sn_server_id = (case getServerId ip port db of None \<Rightarrow> JNull
                                      | Some i \<Rightarrow> JNum (of_nat i)),
                     sn_player_count = js_or (field (\<lambda>info. js_byte (info_players info))) (JNum 0),
                     sn_max_players =
                       js_or (field (\<lambda>info. js_byte (info_max_players info))) (JNum 0),
                     sn_map = js_or (field (\<lambda>info. JStr (info_map info))) (JStr ''Unknown''),
                     sn_gamemode = JStr ''Unknown'',
                     sn_gamemode_confidence = JNum 0,
                     sn_is_polish_server = JBool (isPolishServer serverInfo),
                     sn_polish_confidence =
                       JNum (if isPolishServer serverInfo then fl (9 / 10) else fl (1 / 10)),
                     sn_ping_ms = JNum 0\<rparr>
              in case st of
                   CreateSnapshot_fails err \<Rightarrow> Inl (Storage_error err, db)
                 | _ \<Rightarrow> Inr (createSnapshot now snapshotData db)))"

text \<open>The counters of \<open>scanStats\<close> and the state of the scanner that a probe touches.\<close>

record scan_stats =
  totalServers :: nat
  polishServers_count :: nat
  onlineServers :: nat
  offlineServers :: nat

record scanner =
  scanStats :: scan_stats
  polishServers :: "string set"
  scanner_db :: database

text \<open>An object or an array is truthy, whatever it holds.\<close>

definition object_truthy :: "'a \<Rightarrow> bool" where
  "object_truthy obj = True"

text \<open>The \<open>catch\<close> block of \<open>queryServer\<close>, which is also its \<open>else\<close> branch.\<close>

definition probe_offline :: "timestamp \<Rightarrow> string \<Rightarrow> int \<Rightarrow> scanner \<Rightarrow> scanner" where
  "probe_offline now ip serverPort sc =
     sc\<lparr>scanner_db := markServerOffline now ip serverPort (scanner_db sc),
        scanStats := (scanStats sc)\<lparr>offlineServers := offlineServers (scanStats sc) + 1\<rparr>\<rparr>"

text \<open>
  \<open>queryServer\<close> for the address \<open>serverAddress\<close>, already split into \<open>ip\<close> and
  \<open>serverPort\<close>.  \<open>info\<close> and \<open>players\<close> are what the two sockets deliver.
\<close>

definition queryServer ::
    "reply \<Rightarrow> reply \<Rightarrow> storage \<Rightarrow> timestamp \<Rightarrow> string \<Rightarrow> string \<Rightarrow> int \<Rightarrow> scanner \<Rightarrow> scanner" where
  "queryServer info players st now serverAddress ip serverPort sc =
     (case promise_all (queryServerInfo info) (queryServerPlayers players) of
        Inl err \<Rightarrow> probe_offline now ip serverPort sc
      | Inr (serverInfo, playerInfo) \<Rightarrow>
          (if object_truthy serverInfo \<or> object_truthy playerInfo then
             (case saveServerData st now ip serverPort (Some serverInfo) (Some playerInfo)
                     (scanner_db sc) of
                Inl (err, db) \<Rightarrow> probe_offline now ip serverPort (sc\<lparr>scanner_db := db\<rparr>)
              | Inr db \<Rightarrow>
                  (let sc = sc\<lparr>scanner_db := db,
                                scanStats := (scanStats sc)
                                  \<lparr>onlineServers := onlineServers (scanStats sc) + 1\<rparr>\<rparr>
                   in if isPolishServer (Some serverInfo)
                      then sc\<lparr>polishServers := insert serverAddress (polishServers sc),
                              scanStats := (scanStats sc)
                                \<lparr>polishServers_count := polishServers_count (scanStats sc) + 1\<rparr>\<rparr>
                      else sc))
           else probe_offline now ip serverPort sc))"

section \<open>Steam API client: the rate limiter (\<open>checkRateLimit\<close>)\<close>

text \<open>
  The fields of \<open>SteamAPIClient\<close> that the limiter uses.  Times are \<open>Date.now()\<close>
  readings, in milliseconds.
\<close>

record rate_limiter =
  rateLimitWindow :: int
  maxRequestsPerWindow :: nat
  requestHistory :: "int list"

text \<open>
  \<open>setTimeout(resolve, delay)\<close>: Node.js replaces a delay below 1 or above
  \<open>2147483647\<close> by 1.  \<open>Math.min()\<close> of no arguments is \<open>Infinity\<close>, so with an empty
  history the computed delay is infinite and the timer is set to 1 as well.
\<close>

definition timer_delay :: "int \<Rightarrow> int" where
  "timer_delay delay = (if delay < 1 \<or> 2147483647 < delay then 1 else delay)"

definition waitTime :: "int \<Rightarrow> int \<Rightarrow> int list \<Rightarrow> int" where
  "waitTime window now history =
     (if history = [] then 1 else timer_delay (window - (now - Min (set history))))"

text \<open>
  \<open>checkRateLimit\<close>, called at time \<open>now\<close>.  \<open>lag\<close> is the time by which the timer
  fires late.  The result is the time at which the call returns, which is when the
  request is issued, and the limiter it leaves.  The time pushed on the history is
  the \<open>now\<close> read at the start of the call, also after a wait.  Calls are modelled one
  after the other, each returning before the next is made.
\<close>

definition checkRateLimit :: "int \<Rightarrow> nat \<Rightarrow> rate_limiter \<Rightarrow> int \<times> rate_limiter" where
  "checkRateLimit now lag rl =
     (let history = filter (\<lambda>timestamp. now - timestamp < rateLimitWindow rl) (requestHistory rl)
      in if maxRequestsPerWindow rl \<le> length history then
           (let resumed = now + waitTime (rateLimitWindow rl) now history + int lag;
                history = filter (\<lambda>timestamp. resumed - timestamp < rateLimitWindow rl) history
            in (resumed, rl\<lparr>requestHistory := history @ [now]\<rparr>))
         else (now, rl\<lparr>requestHistory := history @ [now]\<rparr>))"

text \<open>
  \<open>n\<close> requests made back-to-back from time \<open>now\<close> on, timers firing on time: each call
  starts when the one before has returned.  The result lists the times at which the
  requests are issued.
\<close>

fun back_to_back :: "nat \<Rightarrow> int \<Rightarrow> rate_limiter \<Rightarrow> int list" where
  "back_to_back 0 now rl = []"
| "back_to_back (Suc n) now rl =
     (case checkRateLimit now 0 rl of (issued, rl') \<Rightarrow> issued # back_to_back n issued rl')"

text \<open>The number of requests issued in the window of length \<open>w\<close> that starts at \<open>t\<close>.\<close>

definition issued_within :: "int list \<Rightarrow> int \<Rightarrow> int \<Rightarrow> nat" where
  "issued_within issues t w = length (filter (\<lambda>i. t \<le> i \<and> i < t + w) issues)"

section \<open>Steam data service: the enrichment queue (\<open>addToQueue\<close>, \<open>processQueue\<close>)\<close>

text \<open>A queue item, with the prefix \<open>qi_\<close>; \<open>addedAt\<close> is a \<open>Date.now()\<close> reading.\<close>

record queue_item =
  qi_steamId :: string
  qi_priority :: string
  qi_addedAt :: int
  qi_retryCount :: nat

record steam_service =
  processingQueue :: "queue_item list"
  isProcessing :: bool
  batchSize :: nat

text \<open>
  The items \<open>addToQueue\<close> builds.  Each item takes its own reading of \<open>Date.now()\<close>, so
  the ids come paired with the readings, which the clock gives in milliseconds.
\<close>

definition queueItems :: "(string \<times> int) list \<Rightarrow> string \<Rightarrow> queue_item list" where
  "queueItems steamIds priority =
     map (\<lambda>(steamId, now). \<lparr>qi_steamId = steamId, qi_priority = priority, qi_addedAt = now,
                              qi_retryCount = 0\<rparr>) steamIds"

text \<open>
  The part of \<open>addToQueue\<close> that changes the queue: \<open>unshift(...queueItems)\<close> puts the new
  items, in their order, in front; \<open>push(...queueItems)\<close> puts them behind.
\<close>

definition enqueue :: "(string \<times> int) list \<Rightarrow> string \<Rightarrow> queue_item list \<Rightarrow> queue_item list" where
  "enqueue steamIds priority queue =
     (if priority = ''high'' then queueItems steamIds priority @ queue
      else queue @ queueItems steamIds priority)"

text \<open>The comparator handed to \<open>sort\<close>.\<close>

definition compare_items :: "queue_item \<Rightarrow> queue_item \<Rightarrow> int" where
  "compare_items a b =
     (if qi_priority a = ''high'' \<and> qi_priority b \<noteq> ''high'' then -1
      else if qi_priority b = ''high'' \<and> qi_priority a \<noteq> ''high'' then 1
      else qi_addedAt b - qi_addedAt a)"

text \<open>
  \<open>Array.prototype.sort\<close> is stable: with a consistent comparator it yields the one
  ordering in which \<open>a\<close> stays in front of \<open>b\<close> unless the comparator puts \<open>b\<close> strictly
  first.  That ordering is computed here by insertion from the right.
\<close>

fun insert_item :: "queue_item \<Rightarrow> queue_item list \<Rightarrow> queue_item list" where
  "insert_item x [] = [x]"
| "insert_item x (y # ys) =
     (if compare_items x y \<le> 0 then x # y # ys else y # insert_item x ys)"

definition sort_queue :: "queue_item list \<Rightarrow> queue_item list" where
  "sort_queue queue = foldr insert_item queue []"

text \<open>
  One iteration of the loop of \<open>processQueue\<close> up to its first \<open>await\<close>: sort the queue,
  then \<open>splice(0, batchSize)\<close>.  The result is the batch and the service it leaves.
\<close>

definition take_batch :: "steam_service \<Rightarrow> queue_item list \<times> steam_service" where
  "take_batch svc =
     (let sorted = sort_queue (processingQueue svc)
      in (take (batchSize svc) sorted, svc\<lparr>processingQueue := drop (batchSize svc) sorted\<rparr>))"

text \<open>
  \<open>processQueue\<close> up to its first \<open>await\<close>: nothing when the worker is running or the
  queue is empty; otherwise the worker is marked running and takes its first batch.
\<close>

definition processQueue :: "steam_service \<Rightarrow> queue_item list option \<times> steam_service" where
  "processQueue svc =
     (if isProcessing svc \<or> processingQueue svc = [] then (None, svc)
      else (case take_batch (svc\<lparr>isProcessing := True\<rparr>) of (batch, svc') \<Rightarrow> (Some batch, svc')))"

text \<open>
  \<open>addToQueue\<close>: enqueue, then start the worker unless it is running.  The result is
  the batch the worker takes at once, if any, and the service.
\<close>

definition addToQueue ::
    "(string \<times> int) list \<Rightarrow> string \<Rightarrow> steam_service \<Rightarrow> queue_item list option \<times> steam_service" where
  "addToQueue steamIds priority svc =
     (let svc = svc\<lparr>processingQueue := enqueue steamIds priority (processingQueue svc)\<rparr>
      in if \<not> isProcessing svc then processQueue svc else (None, svc))"

text \<open>
  The order the comparator stands for: \<open>a\<close> may stay in front of \<open>b\<close> when \<open>b\<close> being
  high-priority makes \<open>a\<close> high-priority too and, within one priority class, \<open>a\<close> was
  not added before \<open>b\<close>.
\<close>

definition item_before :: "queue_item \<Rightarrow> queue_item \<Rightarrow> bool" where
  "item_before a b \<longleftrightarrow>
     (qi_priority b = ''high'' \<longrightarrow> qi_priority a = ''high'') \<and>
     ((qi_priority a = ''high'') = (qi_priority b = ''high'') \<longrightarrow> qi_addedAt b \<le> qi_addedAt a)"

section \<open>Classification (\<open>MLService\<close>)\<close>

text \<open>The thresholds set by the constructor: \<open>0.7\<close>, \<open>0.6\<close> and \<open>0.5\<close>.\<close>

record ml_service =
  polishConfidenceThreshold :: rat
  gamemodeConfidenceThreshold :: rat
  reviewThreshold :: rat

definition MLService :: ml_service where
  "MLService = \<lparr>polishConfidenceThreshold = fl (7 / 10), gamemodeConfidenceThreshold = fl (6 / 10),
                 reviewThreshold = 1 / 2\<rparr>"

text \<open>\<open>gamemodePatterns\<close>, in the order of declaration, which \<open>Object.entries\<close> keeps.\<close>

definition gamemodePatterns :: "(string \<times> regex) list" where
  "gamemodePatterns =
     [(''darkrp'', whole_word (Alt (Lit ''darkrp'')
         (Alt (Seq (Lit ''dark'') (Seq Whitespaces (Lit ''rp''))) (Alt (Lit ''roleplay'') (Lit ''rp''))))),
      (''sandbox'', whole_word (Alt (Lit ''sandbox'') (Alt (Lit ''build'') (Lit ''creative'')))),
      (''ttt'', whole_word (Alt (Lit ''ttt'')
         (Alt (Lit ''trouble'') (Alt (Lit ''terrorist'') (Lit ''traitor''))))),
      (''prophunt'', whole_word (Alt (Seq (Lit ''prop'') (Seq Whitespaces (Lit ''hunt'')))
         (Alt (Lit ''prophunt'') (Lit ''hide'')))),
      (''murder'', whole_word (Alt (Lit ''murder'') (Lit ''gm_murder''))),
      (''deathrun'', whole_word (Alt (Lit ''deathrun'')
         (Alt (Seq (Lit ''death'') (Seq Whitespaces (Lit ''run''))) (Lit ''dr_'')))),
      (''jailbreak'', whole_word (Alt (Lit ''jailbreak'')
         (Alt (Seq (Lit ''jail'') (Seq Whitespaces (Lit ''break''))) (Lit ''prison'')))),
      (''zombiesurvival'', whole_word (Alt (Lit ''zombie'') (Alt (Lit ''zs_'') (Lit ''survival'')))),
      (''cinema'', whole_word (Alt (Lit ''cinema'') (Alt (Lit ''movie'') (Lit ''theater'')))),
      (''militaryrp'', whole_word (Alt (Lit ''military'')
         (Alt (Lit ''milrp'') (Alt (Lit ''army'') (Lit ''war'')))))]"

text \<open>
  The \<open>serverData\<close> of the classifiers: \<open>name\<close>, \<open>tags\<close> and \<open>map\<close> are strings or missing,
  and \<open>x || ''\<close> is the string, or the empty string when it is missing.
\<close>

record ml_server_data =
  ml_name :: "string option"
  ml_tags :: "string option"
  ml_map :: "string option"

definition or_empty :: "string option \<Rightarrow> string" where
  "or_empty v = (case v of None \<Rightarrow> [] | Some s \<Rightarrow> s)"

definition text_blob :: "ml_server_data \<Rightarrow> string" where
  "text_blob serverData =
     toLowerCase (or_empty (ml_name serverData) @ '' '' @ or_empty (ml_tags serverData) @ '' '' @
                  or_empty (ml_map serverData))"

text \<open>
  \<open>matches[0].length / text.length + 0.5\<close>.  The blob holds at least the two separating
  blanks, so its length is not zero.
\<close>

definition pattern_score :: "nat \<Rightarrow> nat \<Rightarrow> rat" where
  "pattern_score matched len = js_add (js_div (of_nat matched) (of_nat len)) (1 / 2)"

text \<open>
  The body of the loop of \<open>predictGamemodeRuleBased\<close>, on the pair of \<open>bestMatch\<close>
  (\<open>None\<close> for \<open>null\<close>) and \<open>highestScore\<close>.
\<close>

definition gamemode_step ::
    "string \<Rightarrow> string option \<times> rat \<Rightarrow> string \<times> regex \<Rightarrow> string option \<times> rat" where
  "gamemode_step text best entry =
     (case entry of (gamemode, pattern) \<Rightarrow>
        (if regex_test pattern text then
           (let score = (case match_length pattern text of
                           Some n \<Rightarrow> pattern_score n (length text)
                         | None \<Rightarrow> 0)
            in if snd best < score then (Some gamemode, score) else best)
         else best))"

record gamemode_prediction =
  gamemode :: string
  gm_confidence :: rat
  gm_needs_review :: bool
  gm_prediction_reason :: string

text \<open>\<open>predictGamemodeRuleBased\<close>.  \<open>bestMatch || 'unknown'\<close> also replaces an empty name.\<close>

definition predictGamemodeRuleBased :: "ml_service \<Rightarrow> ml_server_data \<Rightarrow> gamemode_prediction" where
  "predictGamemodeRuleBased svc serverData =
     (let text = text_blob serverData;
          (bestMatch, highestScore) = foldl (gamemode_step text) (None, 0) gamemodePatterns
      in \<lparr>gamemode = (case bestMatch of None \<Rightarrow> ''unknown''
                                       | Some g \<Rightarrow> if g = [] then ''unknown'' else g),
          gm_confidence = min highestScore (fl (95 / 100)),
          gm_needs_review = (highestScore < reviewThreshold svc),
          gm_prediction_reason = (case bestMatch of None \<Rightarrow> ''No pattern match''
                                   | Some g \<Rightarrow> if g = [] then ''No pattern match''
                                              else ''Rule-based match: '' @ g)\<rparr>)"

text \<open>A prediction of the Polish-server classifiers.\<close>

record polish_prediction =
  is_polish :: bool
  pp_confidence :: rat
  pp_needs_review :: bool
  pp_prediction_reason :: string

text \<open>Decimal rendering of an integer.\<close>

definition decimal_int :: "int \<Rightarrow> string" where
  "decimal_int i = (if 0 \<le> i then decimal (nat i) else CHR ''-'' # decimal (nat (- i)))"

text \<open>\<open>combinePolishPredictions\<close>.\<close>

definition combinePolishPredictions ::
    "ml_service \<Rightarrow> polish_prediction \<Rightarrow> polish_prediction \<Rightarrow> polish_prediction" where
  "combinePolishPredictions svc ruleBased ml =
     (let combinedConfidence =
            js_add (js_mul (pp_confidence ruleBased) (fl (6 / 10)))
                   (js_mul (pp_confidence ml) (fl (4 / 10)));
          isPolish = (1 / 2 < combinedConfidence)
      in \<lparr>is_polish = isPolish,
          pp_confidence = combinedConfidence,
          pp_needs_review = (fl (3 / 10) < combinedConfidence \<and>
                             combinedConfidence < polishConfidenceThreshold svc),
          pp_prediction_reason =
            ''Combined: Rule='' @ decimal_int (Math_round (js_mul (pp_confidence ruleBased) 100)) @
            ''%, ML='' @ decimal_int (Math_round (js_mul (pp_confidence ml) 100)) @ ''%''\<rparr>)"

text \<open>
  The order on matched spans: no match is below every span, and a match is below a
  match that is at least as long.
\<close>

definition span_le :: "nat option \<Rightarrow> nat option \<Rightarrow> bool" where
  "span_le a b =
     (case a of None \<Rightarrow> True | Some m \<Rightarrow> (case b of None \<Rightarrow> False | Some n \<Rightarrow> m \<le> n))"

text \<open>
  The matched span of a blob: the length of the longest \<open>matches[0]\<close> over the detectors
  that match, \<open>None\<close> when none does.  The score grows with the length, so this is the
  match whose score \<open>highestScore\<close> holds after the loop.
\<close>

definition longer_span :: "nat option \<Rightarrow> nat option \<Rightarrow> nat option" where
  "longer_span a b =
     (case a of None \<Rightarrow> b | Some m \<Rightarrow> (case b of None \<Rightarrow> a | Some n \<Rightarrow> Some (max m n)))"

definition matched_span :: "string \<Rightarrow> nat option" where
  "matched_span text =
     foldl (\<lambda>best entry. longer_span best (match_length (snd entry) text)) None gamemodePatterns"

text \<open>A name that \<open>bestMatch || 'unknown'\<close> keeps and that is not \<open>unknown\<close> itself.\<close>

definition known_name :: "string \<Rightarrow> bool" where
  "known_name g \<longleftrightarrow> g \<noteq> [] \<and> g \<noteq> ''unknown''"

section \<open>Properties of the directory-response parser\<close>

lemma parse_master_loop_step:
  "offset + 6 < length msg \<Longrightarrow>
   parse_master_loop msg offset servers =
   parse_master_loop msg (offset + 6) (servers @ [server_entry msg offset])"
  by (subst parse_master_loop.simps) simp

lemma parse_master_loop_stop:
  "\<not> offset + 6 < length msg \<Longrightarrow> parse_master_loop msg offset servers = servers"
  by (subst parse_master_loop.simps) simp

lemma record_count_step:
  "offset + 6 < length msg \<Longrightarrow>
   (length msg - (offset + 1)) div 6 = Suc ((length msg - (offset + 6 + 1)) div 6)"
proof -
  assume "offset + 6 < length msg"
  then have "length msg - (offset + 1) = (length msg - (offset + 6 + 1)) + 6"
    by simp
  then show ?thesis
    by (simp only: div_add_self2)
qed

text \<open>
  The loop visits the offsets \<open>offset, offset + 6, \<dots>\<close> that lie strictly below
  \<open>length msg - 6\<close>; there are \<open>(length msg - (offset + 1)) div 6\<close> of them.
\<close>

lemma parse_master_loop_eq:
  "parse_master_loop msg offset servers =
   servers @ map (\<lambda>i. server_entry msg (offset + 6 * i)) [0..<(length msg - (offset + 1)) div 6]"
proof (induction msg offset servers rule: parse_master_loop.induct)
  case (1 msg offset servers)
  show ?case
  proof (cases "offset + 6 < length msg")
    case True
    note n = record_count_step [OF True]
    have "parse_master_loop msg offset servers =
          parse_master_loop msg (offset + 6) (servers @ [server_entry msg offset])"
      using True by (rule parse_master_loop_step)
    also have "\<dots> = (servers @ [server_entry msg offset]) @
        map (\<lambda>i. server_entry msg (offset + 6 + 6 * i)) [0..<(length msg - (offset + 6 + 1)) div 6]"
      using True by (intro "1.IH") simp
    also have "\<dots> = servers @
        map (\<lambda>i. server_entry msg (offset + 6 * i)) [0..<(length msg - (offset + 1)) div 6]"
    proof -
      have "[Suc 0..<Suc k] = map Suc [0..<k]" for k
        by (simp only: map_Suc_upt)
      then show ?thesis
        unfolding n by (simp add: upt_conv_Cons o_def add.assoc del: upt_Suc)
    qed
    finally show ?thesis .
  next
    case False
    then have "length msg - (offset + 1) < 6" by simp
    then have "(length msg - (offset + 1)) div 6 = 0" by (rule div_less)
    with False show ?thesis by (simp add: parse_master_loop_stop)
  qed
qed

text \<open>Every record the loop decodes lies inside the datagram: no read is out of range.\<close>

lemma parse_master_loop_in_range:
  "i < (length msg - (offset + 1)) div 6 \<Longrightarrow> offset + 6 * i + 5 < length msg"
proof -
  assume "i < (length msg - (offset + 1)) div 6"
  then have "Suc i \<le> (length msg - (offset + 1)) div 6" by simp
  then have "6 * Suc i \<le> length msg - (offset + 1)"
    by (simp only: less_eq_div_iff_mult_less_eq [OF zero_less_numeral] mult.commute)
  then show ?thesis by simp
qed

lemma decimal_1: "decimal (Suc 0) = ''1''"
  by (simp add: decimal.simps digit_char_def)

lemma decimal_192: "decimal 192 = ''192''"
  by (simp add: decimal.simps digit_char_def)

lemma decimal_168: "decimal 168 = ''168''"
  by (simp add: decimal.simps digit_char_def)

lemma decimal_27047: "decimal 27047 = ''27047''"
  by (simp add: decimal.simps digit_char_def)

lemma server_entry_example:
  "server_entry [h1, h2, h3, h4, h5, h6, 192, 168, 1, 1, 0x69, 0xA7, t1, t2, t3, t4, t5, t6] 6 =
   ''192.168.1.1:27047''"
  by (simp add: server_entry_def record_ip_def record_port_def buf_at_def template_byte_def
      to_int32_def decimal_192 decimal_168 decimal_1 decimal_27047)

text \<open>
  Claim C2 as stated: the 12-byte datagram, six header bytes and the record
  \<open>192, 168, 1, 1, 0x69, 0xA7\<close>, decodes to the one candidate \<open>192.168.1.1:27047\<close>.
  It does not: at offset 6 the guard \<open>offset < msg.length - 6\<close> reads \<open>6 < 6\<close>, the loop
  body never runs and no candidate is produced.  Shown for the header the directory
  host really sends.
\<close>

theorem directory_response_12_bytes_counterexample:
  "on_master_message [] [0xFF, 0xFF, 0xFF, 0xFF, 0x66, 0x0A, 192, 168, 1, 1, 0x69, 0xA7]
   \<noteq> [''192.168.1.1:27047'']"
  by (simp add: on_master_message_def parse_master_loop_stop)

text \<open>
  Claim C2, amended.  For every header, the 12-byte datagram yields no candidate, because
  the record that occupies the last six bytes is never read; followed by six more bytes
  (an 18-byte datagram) the same record yields exactly the candidate
  \<open>192.168.1.1:27047\<close>, with the port read big-endian.  In general the handler appends,
  in order, the records at the offsets \<open>6, 12, 18, \<dots>\<close> strictly below
  \<open>length msg - 6\<close>, which are \<open>(length msg - 7) div 6\<close> records, to the candidates
  collected so far.
\<close>

theorem directory_response_records:
  "on_master_message [] [h1, h2, h3, h4, h5, h6, 192, 168, 1, 1, 0x69, 0xA7] = [] \<and>
   on_master_message []
     [h1, h2, h3, h4, h5, h6, 192, 168, 1, 1, 0x69, 0xA7, t1, t2, t3, t4, t5, t6] =
     [''192.168.1.1:27047''] \<and>
   on_master_message servers msg =
     servers @ map (\<lambda>i. server_entry msg (6 + 6 * i)) [0..<(length msg - 7) div 6]"
proof (intro conjI)
  show "on_master_message [] [h1, h2, h3, h4, h5, h6, 192, 168, 1, 1, 0x69, 0xA7] = []"
    by (simp add: on_master_message_def parse_master_loop_stop)
  show "on_master_message []
     [h1, h2, h3, h4, h5, h6, 192, 168, 1, 1, 0x69, 0xA7, t1, t2, t3, t4, t5, t6] =
     [''192.168.1.1:27047'']"
    by (simp add: on_master_message_def parse_master_loop_step parse_master_loop_stop
        server_entry_example)
  show "on_master_message servers msg =
     servers @ map (\<lambda>i. server_entry msg (6 + 6 * i)) [0..<(length msg - 7) div 6]"
    by (simp add: on_master_message_def parse_master_loop_eq)
qed

section \<open>Properties of the number model\<close>

text \<open>Rounding to an integer stays between the integers around its argument and is monotone.\<close>

lemma round_half_even_cases:
  "round_half_even x = \<lfloor>x\<rfloor> \<or> round_half_even x = \<lfloor>x\<rfloor> + 1"
  by (simp add: round_half_even_def Let_def)

lemma round_half_even_of_int: "round_half_even (of_int n) = n"
  by (simp add: round_half_even_def Let_def)

lemma round_half_even_ge_int:
  assumes "of_int n \<le> x" shows "n \<le> round_half_even x"
proof -
  have "n \<le> \<lfloor>x\<rfloor>" using assms by (simp add: le_floor_iff)
  then show ?thesis using round_half_even_cases [of x] by auto
qed

lemma round_half_even_le_int:
  assumes "x \<le> of_int n" shows "round_half_even x \<le> n"
proof (cases "x = of_int n")
  case True
  then show ?thesis by (simp add: round_half_even_of_int)
next
  case False
  with assms have "x < of_int n" by simp
  then have "\<lfloor>x\<rfloor> < n" by (simp add: floor_less_iff)
  then show ?thesis using round_half_even_cases [of x] by auto
qed

lemma round_half_even_mono:
  assumes "x \<le> y" shows "round_half_even x \<le> round_half_even y"
proof (cases "\<lfloor>x\<rfloor> < \<lfloor>y\<rfloor>")
  case True
  have "round_half_even x \<le> \<lfloor>x\<rfloor> + 1"
    using round_half_even_cases [of x] by auto
  also have "\<dots> \<le> \<lfloor>y\<rfloor>" using True by simp
  also have "\<dots> \<le> round_half_even y"
    using round_half_even_cases [of y] by auto
  finally show ?thesis .
next
  case False
  moreover have "\<lfloor>x\<rfloor> \<le> \<lfloor>y\<rfloor>" using assms by (rule floor_mono)
  ultimately have eq: "\<lfloor>x\<rfloor> = \<lfloor>y\<rfloor>" by simp
  have "x - of_int \<lfloor>y\<rfloor> \<le> y - of_int \<lfloor>y\<rfloor>" using assms by simp
  then show ?thesis
    by (auto simp: round_half_even_def Let_def eq)
qed

lemma round_sig_two_52: "round_sig k (2 ^ 52) = 2 ^ 52"
proof (cases k)
  case 0
  then show ?thesis by simp
next
  case (Suc k')
  have "round_half_even (2 ^ 52) = 2 ^ 52"
    using round_half_even_of_int [of "2 ^ 52"] by simp
  then show ?thesis unfolding Suc by simp
qed

lemma round_sig_lower: "2 ^ 52 / 2 ^ m \<le> x \<Longrightarrow> 2 ^ 52 / 2 ^ m \<le> round_sig k x"
proof (induction k arbitrary: x m)
  case 0
  then show ?case by simp
next
  case (Suc k)
  consider (high) "2 ^ 53 \<le> x" | (low) "x < 2 ^ 52" | (mid) "2 ^ 52 \<le> x" "x < 2 ^ 53"
    by linarith
  then show ?case
  proof cases
    case high
    have "2 ^ 52 / 2 ^ Suc m \<le> x / 2" using Suc.prems by simp
    then have "2 ^ 52 / 2 ^ Suc m \<le> round_sig k (x / 2)" by (rule Suc.IH)
    then have "2 ^ 52 / 2 ^ m \<le> 2 * round_sig k (x / 2)" by simp
    with high show ?thesis by simp
  next
    case low
    have "m \<noteq> 0" using low Suc.prems by (cases m) auto
    then obtain m' where m: "m = Suc m'" by (cases m) auto
    have "2 ^ 52 / 2 ^ m' \<le> 2 * x" using Suc.prems unfolding m by simp
    then have "2 ^ 52 / 2 ^ m' \<le> round_sig k (2 * x)" by (rule Suc.IH)
    then have "2 ^ 52 / 2 ^ m \<le> round_sig k (2 * x) / 2" unfolding m by simp
    with low show ?thesis by simp
  next
    case mid
    have "(2 :: int) ^ 52 \<le> round_half_even x"
      by (rule round_half_even_ge_int) (use mid in simp)
    then have "(2 :: rat) ^ 52 \<le> of_int (round_half_even x)"
      by (metis of_int_le_iff of_int_numeral of_int_power)
    moreover have "(2 :: rat) ^ 52 / 2 ^ m \<le> 2 ^ 52"
      by (simp add: divide_le_eq)
    ultimately show ?thesis using mid by simp
  qed
qed

lemma round_sig_upper: "x \<le> 2 ^ 53 \<Longrightarrow> round_sig k x \<le> 2 ^ 53"
proof (induction k arbitrary: x)
  case 0
  then show ?case by simp
next
  case (Suc k)
  consider (high) "2 ^ 53 \<le> x" | (low) "x < 2 ^ 52" | (mid) "2 ^ 52 \<le> x" "x < 2 ^ 53"
    by linarith
  then show ?case
  proof cases
    case high
    with Suc.prems have "x = 2 ^ 53" by simp
    then have "x / 2 = 2 ^ 52" by simp
    then have "round_sig k (x / 2) = 2 ^ 52" by (simp only: round_sig_two_52)
    with high show ?thesis by simp
  next
    case low
    then have "2 * x \<le> 2 ^ 53" by simp
    then have "round_sig k (2 * x) \<le> 2 ^ 53" by (rule Suc.IH)
    with low show ?thesis by simp
  next
    case mid
    have "round_half_even x \<le> 2 ^ 53"
      by (rule round_half_even_le_int) (use mid in simp)
    then have "of_int (round_half_even x) \<le> (2 :: rat) ^ 53"
      by (metis of_int_le_iff of_int_numeral of_int_power)
    with mid show ?thesis by simp
  qed
qed

lemma round_sig_mono: "x \<le> y \<Longrightarrow> round_sig k x \<le> round_sig k y"
proof (induction k arbitrary: x y)
  case 0
  then show ?case by simp
next
  case (Suc k)
  consider (high) "2 ^ 53 \<le> x" | (low) "x < 2 ^ 52" | (mid) "2 ^ 52 \<le> x" "x < 2 ^ 53"
    by linarith
  then show ?case
  proof cases
    case high
    then have y: "2 ^ 53 \<le> y" using Suc.prems by simp
    have "round_sig k (x / 2) \<le> round_sig k (y / 2)"
      by (rule Suc.IH) (use Suc.prems in simp)
    with high y show ?thesis by simp
  next
    case mid
    show ?thesis
    proof (cases "2 ^ 53 \<le> y")
      case True
      have "round_half_even x \<le> 2 ^ 53"
        by (rule round_half_even_le_int) (use mid in simp)
      then have a: "of_int (round_half_even x) \<le> (2 :: rat) ^ 53"
        by (metis of_int_le_iff of_int_numeral of_int_power)
      have "2 ^ 52 / 2 ^ 0 \<le> round_sig k (y / 2)"
        by (rule round_sig_lower) (use True in simp)
      then have "2 ^ 53 \<le> 2 * round_sig k (y / 2)" by simp
      with a mid True show ?thesis by simp
    next
      case False
      moreover have "2 ^ 52 \<le> y" using mid Suc.prems by simp
      moreover have "round_half_even x \<le> round_half_even y"
        using Suc.prems by (rule round_half_even_mono)
      ultimately show ?thesis using mid by simp
    qed
  next
    case low
    show ?thesis
    proof (cases "y < 2 ^ 52")
      case True
      have "round_sig k (2 * x) \<le> round_sig k (2 * y)"
        by (rule Suc.IH) (use Suc.prems in simp)
      with low True show ?thesis by simp
    next
      case False
      have "round_sig k (2 * x) \<le> 2 ^ 53"
        by (rule round_sig_upper) (use low in simp)
      then have a: "round_sig (Suc k) x \<le> 2 ^ 52" using low by simp
      have "2 ^ 52 / 2 ^ 0 \<le> round_sig (Suc k) y"
        by (rule round_sig_lower) (use False in simp)
      with a show ?thesis by simp
    qed
  qed
qed

lemma round_sig_up:
  "2 ^ 52 \<le> x * 2 ^ n \<Longrightarrow> x * 2 ^ n < 2 ^ 53 \<Longrightarrow> n < k \<Longrightarrow>
   round_sig k x = of_int (round_half_even (x * 2 ^ n)) / 2 ^ n"
proof (induction n arbitrary: x k)
  case 0
  then obtain k' where k: "k = Suc k'" by (cases k) auto
  from 0 show ?case unfolding k by simp
next
  case (Suc n)
  then obtain k' where k: "k = Suc k'" and nk: "n < k'" by (cases k) auto
  have pos: "0 < x"
  proof (rule ccontr)
    assume "\<not> 0 < x"
    then have "x * 2 ^ Suc n \<le> 0" by (simp add: mult_le_0_iff)
    moreover have "(0 :: rat) < 2 ^ 52" by simp
    ultimately show False using Suc.prems(1) by linarith
  qed
  have "x * 2 \<le> x * 2 ^ Suc n"
    using pos by simp
  with Suc.prems(2) have x: "x < 2 ^ 52" by simp
  have "round_sig k' (2 * x) = of_int (round_half_even ((2 * x) * 2 ^ n)) / 2 ^ n"
    using Suc.prems nk by (intro Suc.IH) (simp_all add: mult_ac)
  with x show ?case unfolding k by (simp add: mult_ac)
qed

lemma fl_normal: "1 / 2 ^ 1022 \<le> x \<Longrightarrow> fl x = round_sig 1100 x"
proof -
  assume a: "1 / 2 ^ 1022 \<le> x"
  have "(0 :: rat) < 1 / 2 ^ 1022" by simp
  from this a have "0 < x" by (rule less_le_trans)
  with a show ?thesis by (simp add: fl_def Let_def)
qed

lemma fl_subnormal:
  "0 \<le> x \<Longrightarrow> x < 1 / 2 ^ 1022 \<Longrightarrow> fl x = of_int (round_half_even (x * 2 ^ 1074)) / 2 ^ 1074"
  by (simp add: fl_def Let_def)

lemma fl_0: "fl 0 = 0"
  by (simp add: fl_def round_half_even_def)

lemma fl_mono:
  assumes "0 \<le> x" and "x \<le> y"
  shows "fl x \<le> fl y"
proof -
  have y: "0 \<le> y" using assms by simp
  consider (sub) "y < 1 / 2 ^ 1022" | (cross) "x < 1 / 2 ^ 1022" "1 / 2 ^ 1022 \<le> y"
    | (normal) "1 / 2 ^ 1022 \<le> x"
    by linarith
  then show ?thesis
  proof cases
    case sub
    then have x: "x < 1 / 2 ^ 1022" using assms by simp
    have "round_half_even (x * 2 ^ 1074) \<le> round_half_even (y * 2 ^ 1074)"
      by (rule round_half_even_mono) (use assms in simp)
    then have "(of_int (round_half_even (x * 2 ^ 1074)) :: rat) / 2 ^ 1074
        \<le> of_int (round_half_even (y * 2 ^ 1074)) / 2 ^ 1074"
      by (simp add: divide_right_mono)
    then show ?thesis
      unfolding fl_subnormal [OF assms(1) x] fl_subnormal [OF y sub] .
  next
    case cross
    have "x * 2 ^ 1074 \<le> of_int (2 ^ 52)"
    proof -
      have "x * 2 ^ 1074 \<le> (1 / 2 ^ 1022) * 2 ^ 1074"
        using cross(1) by (intro mult_right_mono) simp_all
      also have "\<dots> = of_int (2 ^ 52)"
        by simp
      finally show ?thesis .
    qed
    then have "round_half_even (x * 2 ^ 1074) \<le> 2 ^ 52"
      by (rule round_half_even_le_int)
    then have "(of_int (round_half_even (x * 2 ^ 1074)) :: rat) \<le> 2 ^ 52"
      by (metis of_int_le_iff of_int_numeral of_int_power)
    then have "(of_int (round_half_even (x * 2 ^ 1074)) :: rat) / 2 ^ 1074 \<le> 2 ^ 52 / 2 ^ 1074"
      by (simp add: divide_right_mono)
    moreover have "(2 :: rat) ^ 52 / 2 ^ 1074 \<le> round_sig 1100 y"
      by (rule round_sig_lower) (use cross(2) in simp)
    ultimately have "(of_int (round_half_even (x * 2 ^ 1074)) :: rat) / 2 ^ 1074 \<le> round_sig 1100 y"
      by (rule order_trans)
    then show ?thesis
      unfolding fl_subnormal [OF assms(1) cross(1)] fl_normal [OF cross(2)] .
  next
    case normal
    then have "1 / 2 ^ 1022 \<le> y" using assms by simp
    with normal show ?thesis
      by (simp only: fl_normal round_sig_mono [OF assms(2)])
  qed
qed

lemma fl_half: "fl (1 / 2) = 1 / 2"
proof -
  have "round_sig 1100 (1 / 2) = of_int (round_half_even ((1 / 2) * 2 ^ 53)) / 2 ^ 53"
    by (rule round_sig_up) simp_all
  moreover have "fl (1 / 2) = round_sig 1100 (1 / 2)"
    by (rule fl_normal) simp
  ultimately show ?thesis
    by (simp add: round_half_even_def)
qed

text \<open>Evaluation of the rounding at a fraction, and the literals the services use.\<close>

lemma fl_eval:
  "2 ^ 52 \<le> x * 2 ^ n \<Longrightarrow> x * 2 ^ n < 2 ^ 53 \<Longrightarrow> n < 1100 \<Longrightarrow> 1 / 2 ^ 1022 \<le> x \<Longrightarrow>
   fl x = of_int (round_half_even (x * 2 ^ n)) / 2 ^ n"
  by (simp only: fl_normal round_sig_up)

lemma round_half_even_fraction:
  assumes "0 < q"
  shows "round_half_even (of_int p / of_int q) =
     (if 2 * (p mod q) < q then p div q
      else if q < 2 * (p mod q) then p div q + 1
      else if even (p div q) then p div q else p div q + 1)"
proof -
  have f: "\<lfloor>(of_int p :: rat) / of_int q\<rfloor> = p div q"
    by (rule floor_divide_of_int_eq)
  have "(of_int p :: rat) = of_int (p div q) * of_int q + of_int (p mod q)"
    by (metis of_int_add of_int_mult div_mult_mod_eq)
  then have r: "(of_int p :: rat) / of_int q - of_int (p div q) = of_int (p mod q) / of_int q"
    using assms by (simp add: field_simps)
  have lt: "(of_int (p mod q) :: rat) / of_int q < 1 / 2 \<longleftrightarrow> 2 * (p mod q) < q"
  proof -
    have "(of_int (p mod q) :: rat) / of_int q < 1 / 2 \<longleftrightarrow>
        (of_int (2 * (p mod q)) :: rat) < of_int q"
      using assms by (simp add: field_simps)
    then show ?thesis by (simp only: of_int_less_iff)
  qed
  have gt: "1 / 2 < (of_int (p mod q) :: rat) / of_int q \<longleftrightarrow> q < 2 * (p mod q)"
  proof -
    have "1 / 2 < (of_int (p mod q) :: rat) / of_int q \<longleftrightarrow>
        (of_int q :: rat) < of_int (2 * (p mod q))"
      using assms by (simp add: field_simps)
    then show ?thesis by (simp only: of_int_less_iff)
  qed
  show ?thesis
    unfolding round_half_even_def Let_def f r lt gt ..
qed

lemmas round_half_even_numeral =
  round_half_even_fraction [of "numeral b" "numeral a", simplified] for a b

lemma fl_9_10: "fl (9 / 10) = 8106479329266893 / 2 ^ 53"
  by (rule fl_eval [where n = 53, THEN trans]) (simp_all add: round_half_even_numeral)

lemma fl_1_10: "fl (1 / 10) = 3602879701896397 / 2 ^ 55"
  by (rule fl_eval [where n = 56, THEN trans]) (simp_all add: round_half_even_numeral)

lemma fl_6_10: "fl (6 / 10) = 5404319552844595 / 2 ^ 53"
  by (rule fl_eval [where n = 53, THEN trans]) (simp_all add: round_half_even_numeral)

lemma fl_4_10: "fl (4 / 10) = 3602879701896397 / 2 ^ 53"
  by (rule fl_eval [where n = 54, THEN trans]) (simp_all add: round_half_even_numeral)

lemma fl_3_10: "fl (3 / 10) = 5404319552844595 / 2 ^ 54"
  by (rule fl_eval [where n = 54, THEN trans]) (simp_all add: round_half_even_numeral)

lemma fl_7_10: "fl (7 / 10) = 3152519739159347 / 2 ^ 52"
  by (rule fl_eval [where n = 53, THEN trans]) (simp_all add: round_half_even_numeral)

lemma fl_58_100: "fl (58 / 100) = 5224175567749775 / 2 ^ 53"
  by (rule fl_eval [where n = 53, THEN trans]) (simp_all add: round_half_even_numeral)

section \<open>Properties of the persistence statements\<close>

lemma same_server_inserted:
  "same_server (sd_ip d) (sd_port d) (inserted_server_row i t d)"
  by (simp add: same_server_def inserted_server_row_def)

text \<open>
  Claim C4 (upsert keeps \<open>first_seen\<close>).  Two calls of \<open>insertServer\<close> for one
  \<open>(ip, port)\<close>, at times \<open>t1\<close> and \<open>t2\<close>, leave exactly one row for that identity, and
  its columns hold the values of the second call.  But the row is the one the second
  call inserted: \<open>OR REPLACE\<close> deleted the first row, so \<open>first_seen\<close> is \<open>t2\<close>, the time
  of the second call, and not \<open>t1\<close>; the \<open>id\<close> is new as well.
\<close>

theorem insertServer_twice:
  assumes "sd_ip d2 = sd_ip d1" and "sd_port d2 = sd_port d1"
  shows "filter (same_server (sd_ip d1) (sd_port d1))
           (servers_table (insertServer t2 d2 (insertServer t1 d1 db))) =
         [inserted_server_row (Suc (Suc (servers_seq db))) t2 d2] \<and>
         srv_first_seen (inserted_server_row (Suc (Suc (servers_seq db))) t2 d2) = t2"
  using assms same_server_inserted [of d1] same_server_inserted [of d2]
  by (simp add: insertServer_def Let_def inserted_server_row_def)

text \<open>
  The failing input of C4: a server first saved at time 100 and saved again, with a new
  map, at time 200 has \<open>first_seen = 200\<close> afterwards.
\<close>

theorem insertServer_twice_witness:
  "map (\<lambda>r. (srv_id r, srv_map r, srv_first_seen r, srv_last_seen r))
     (servers_table
       (insertServer 200
          \<lparr>sd_ip = ''10.0.0.1'', sd_port = 27015, sd_name = JStr ''a'', sd_map = JStr ''gm_new'',
           sd_description = JStr [], sd_tags = JStr [], sd_max_players = JNum 16,
           sd_password_protected = JBool False, sd_secure = JBool True, sd_version = JStr [],
           sd_os = JStr ''l'', sd_game_id = JNum 4000, sd_country = JStr ''Unknown'',
           sd_region = JStr ''Unknown''\<rparr>
          (insertServer 100
             \<lparr>sd_ip = ''10.0.0.1'', sd_port = 27015, sd_name = JStr ''a'', sd_map = JStr ''gm_old'',
              sd_description = JStr [], sd_tags = JStr [], sd_max_players = JNum 16,
              sd_password_protected = JBool False, sd_secure = JBool True, sd_version = JStr [],
              sd_os = JStr ''l'', sd_game_id = JNum 4000, sd_country = JStr ''Unknown'',
              sd_region = JStr ''Unknown''\<rparr>
             \<lparr>servers_table = [], servers_seq = 0, server_snapshots_table = [],
              server_snapshots_seq = 0, polish_server_predictions_table = []\<rparr>))) =
   [(2, SqlText ''gm_new'', 200, 200)]"
proof -
  let ?d1 = "\<lparr>sd_ip = ''10.0.0.1'', sd_port = 27015, sd_name = JStr ''a'', sd_map = JStr ''gm_old'',
              sd_description = JStr [], sd_tags = JStr [], sd_max_players = JNum 16,
              sd_password_protected = JBool False, sd_secure = JBool True, sd_version = JStr [],
              sd_os = JStr ''l'', sd_game_id = JNum 4000, sd_country = JStr ''Unknown'',
              sd_region = JStr ''Unknown''\<rparr>"
  let ?d2 = "?d1\<lparr>sd_map := JStr ''gm_new''\<rparr>"
  let ?db = "\<lparr>servers_table = [], servers_seq = 0, server_snapshots_table = [],
              server_snapshots_seq = 0, polish_server_predictions_table = []\<rparr>"
  have ip: "sd_ip ?d2 = sd_ip ?d1" and port: "sd_port ?d2 = sd_port ?d1"
    by simp_all
  have "filter (same_server (sd_ip ?d1) (sd_port ?d1))
          (servers_table (insertServer 200 ?d2 (insertServer 100 ?d1 ?db))) =
        [inserted_server_row (Suc (Suc (servers_seq ?db))) 200 ?d2]"
    using insertServer_twice [OF ip port, of 200 100 ?db] by blast
  moreover have "servers_table (insertServer 200 ?d2 (insertServer 100 ?d1 ?db)) =
      filter (same_server (sd_ip ?d1) (sd_port ?d1))
          (servers_table (insertServer 200 ?d2 (insertServer 100 ?d1 ?db)))"
    by (simp add: insertServer_def Let_def same_server_def inserted_server_row_def)
  ultimately have "servers_table (insertServer 200 ?d2 (insertServer 100 ?d1 ?db)) =
        [inserted_server_row (Suc (Suc (servers_seq ?db))) 200 ?d2]"
    by simp
  then show ?thesis
    by (simp add: inserted_server_row_def sql_bind_def)
qed

text \<open>
  Claim C6 (feedback attaches once).  After \<open>submitFeedback\<close> has stored a verdict that
  is not \<open>NULL\<close> for a server, a second \<open>submitFeedback\<close> for the same server, with any
  verdict, reason and time, changes nothing: the database is the one the first call
  left, so every prediction keeps the \<open>manual_feedback\<close>, \<open>feedback_time\<close> and
  \<open>feedback_reason\<close> of the first call.  More generally, in any database a prediction
  that carries feedback is left as it is by every \<open>submitFeedback\<close>.
\<close>

theorem submitFeedback_once:
  assumes "sql_bind feedback1 \<noteq> SqlNull"
  shows "submitFeedback now2 serverId feedback2 reason2
           (submitFeedback now1 serverId feedback1 reason1 db) =
         submitFeedback now1 serverId feedback1 reason1 db \<and>
         list_all2 (\<lambda>p q. pred_manual_feedback p \<noteq> SqlNull \<longrightarrow> q = p)
           (polish_server_predictions_table db')
           (polish_server_predictions_table (submitFeedback now serverId' feedback reason db'))"
proof
  show "submitFeedback now2 serverId feedback2 reason2
           (submitFeedback now1 serverId feedback1 reason1 db) =
         submitFeedback now1 serverId feedback1 reason1 db"
    using assms by (simp add: submitFeedback_def awaits_feedback_def o_def cong: map_cong)
  show "list_all2 (\<lambda>p q. pred_manual_feedback p \<noteq> SqlNull \<longrightarrow> q = p)
           (polish_server_predictions_table db')
           (polish_server_predictions_table (submitFeedback now serverId' feedback reason db'))"
    by (simp add: submitFeedback_def awaits_feedback_def list_all2_map2 list.rel_refl_strong)
qed

text \<open>
  The theorem at a prediction for server 7 that is first accepted at time 10 and then
  rejected at time 20: it keeps the first verdict, time and reason.
\<close>

theorem submitFeedback_once_witness:
  "map (\<lambda>p. (pred_manual_feedback p, pred_feedback_time p, pred_feedback_reason p))
     (polish_server_predictions_table
       (submitFeedback 20 (JNum 7) (JStr ''reject'') (JStr ''no'')
          (submitFeedback 10 (JNum 7) (JStr ''accept'') (JStr ''ok'')
             \<lparr>servers_table = [], servers_seq = 0, server_snapshots_table = [],
              server_snapshots_seq = 0,
              polish_server_predictions_table =
                [\<lparr>pred_id = 1, pred_server_id = SqlInteger 7,
                  pred_is_polish_predicted = SqlInteger 1, pred_confidence = SqlReal (29 / 50),
                  pred_prediction_reason = SqlText ''Combined'', pred_features_json = SqlNull,
                  pred_prediction_time = 5, pred_needs_review = SqlInteger 1,
                  pred_manual_feedback = SqlNull, pred_feedback_time = SqlNull,
                  pred_feedback_reason = SqlNull, pred_model_version = SqlNull\<rparr>]\<rparr>))) =
   [(SqlText ''accept'', SqlInteger 10, SqlText ''ok'')]"
proof -
  have verdict: "sql_bind (JStr ''accept'') \<noteq> SqlNull"
    by (simp add: sql_bind_def)
  show ?thesis
    unfolding submitFeedback_once [OF verdict, THEN conjunct1]
    by (simp add: submitFeedback_def awaits_feedback_def sql_bind_def sql_eq_integer_column_def
        numeric_affinity_def sql_number_def)
qed

text \<open>
  The server may be named by a text: the id 7 passed as the string \<open>7\<close> selects the
  prediction of server 7, and a string that is not a number selects none.
\<close>

lemma integer_literal_examples:
  "integer_literal ''7'' = Some 7"
  "integer_literal '' -12 '' = Some (- 12)"
  "integer_literal ''+007'' = Some 7"
  "integer_literal ''7a'' = None"
  "integer_literal ''-'' = None"
  "integer_literal [] = None"
  by code_simp+

lemma awaits_feedback_text_id:
  "awaits_feedback (sql_bind (JStr ''7''))
     \<lparr>pred_id = 1, pred_server_id = SqlInteger 7,
      pred_is_polish_predicted = SqlInteger 1, pred_confidence = SqlReal (29 / 50),
      pred_prediction_reason = SqlText ''Combined'', pred_features_json = SqlNull,
      pred_prediction_time = 5, pred_needs_review = SqlInteger 1,
      pred_manual_feedback = SqlNull, pred_feedback_time = SqlNull,
      pred_feedback_reason = SqlNull, pred_model_version = SqlNull\<rparr>"
  "\<not> awaits_feedback (sql_bind (JStr ''seven''))
     \<lparr>pred_id = 1, pred_server_id = SqlInteger 7,
      pred_is_polish_predicted = SqlInteger 1, pred_confidence = SqlReal (29 / 50),
      pred_prediction_reason = SqlText ''Combined'', pred_features_json = SqlNull,
      pred_prediction_time = 5, pred_needs_review = SqlInteger 1,
      pred_manual_feedback = SqlNull, pred_feedback_time = SqlNull,
      pred_feedback_reason = SqlNull, pred_model_version = SqlNull\<rparr>"
  by code_simp+
section \<open>Properties of the info decoder\<close>


text \<open>
  The decoder of UTF-8 keeps ASCII bytes, keeps a well-formed sequence such as
  \<open>C5 82\<close>, and writes one U+FFFD for a sequence cut by the end of the input and for each
  byte that cannot start or continue a sequence.
\<close>

lemma utf8_decode_ascii:
  "list_all (\<lambda>b. unat b \<le> 0x7F) bytes \<Longrightarrow> utf8_decode Idle bytes = bytes"
  by (induction bytes) (simp_all add: utf8_lead_def)

lemma utf8_decode_examples:
  "utf8_decode Idle [0xC5, 0x82] = [0xC5, 0x82]"
  "utf8_decode Idle [0x61, 0xC5] = [0x61, 0xEF, 0xBF, 0xBD]"
  "utf8_decode Idle [0xE2, 0x82, 0xAC, 0x62] = [0xE2, 0x82, 0xAC, 0x62]"
  "utf8_decode Idle [0xE2, 0x82, 0x62] = [0xEF, 0xBF, 0xBD, 0x62]"
  "utf8_decode Idle [0xE0, 0x80] = [0xEF, 0xBF, 0xBD, 0xEF, 0xBF, 0xBD]"
  "utf8_decode Idle [0xFF, 0x61] = [0xEF, 0xBF, 0xBD, 0x61]"
  by code_simp+

text \<open>
  A well-formed info response: header, protocol \<open>0x11\<close>, the strings \<open>ab\<close>, \<open>m\<close>, \<open>f\<close>
  and \<open>g\<close>, three players of sixteen, no bots, type \<open>d\<close>, environment \<open>l\<close>, visibility 0,
  VAC 1 and version \<open>1\<close>.
\<close>

lemma parseA2SInfo_example:
  "parseA2SInfo
     [0xFF, 0xFF, 0xFF, 0xFF, 0x11, 0x61, 0x62, 0, 0x6D, 0, 0x66, 0, 0x67, 0, 3, 16, 0, 0x64, 0x6C, 0, 1, 0x31, 0] =
   Inr \<lparr>info_protocol = Some 0x11, info_name = \<lparr>str_value = ''ab'', str_length = 2\<rparr>,
          info_map = ''m'', info_folder = ''f'', info_game = ''g'', info_players = Some 3,
          info_max_players = Some 16, info_bots = Some 0, info_server_type = ''d'',
          info_environment = ''l'', info_visibility = Some 0, info_vac = Some 1,
          info_version = ''1'', info_port = 0, info_tags = []\<rparr>"
  by code_simp

text \<open>
  The decoder of the player list reads its numbers with \<open>readInt32LE\<close> and
  \<open>readFloatLE\<close>, which throw on a short buffer, so a cut player response does reach the
  handler: one player announced, its index and its name \<open>a\<close>, and only two of the eight
  bytes that follow.
\<close>

lemma parseA2SPlayer_truncated_fails:
  "parseA2SPlayer [0xFF, 0xFF, 0xFF, 0xFF, 0x44, 1, 0, 0x61, 0, 5, 0] =
   Inl (Failed_to_parse_A2S_PLAYER ''ERR_OUT_OF_RANGE'')"
  by code_simp

text \<open>
  Claim C3 (a truncated info response fails explicitly).  The body of \<open>parseA2SInfo\<close> is
  wrapped in a handler that rethrows \<open>Failed to parse A2S_INFO\<close>, and \<open>queryServerInfo\<close>
  rejects the query on it, but no statement of the body throws on a short buffer, so
  the handler is never reached and a truncated response is returned as an info object.
  The well-formed response above, cut inside its name after six bytes, decodes to the
  name \<open>a\<close>, empty strings, \<open>undefined\<close> numbers, and the character of code 0 as server
  type and environment.  Cut after nine bytes, before the terminator of the map, it
  decodes to the whole name and map and nothing else.  With only its last byte removed,
  the terminator of the version, it decodes to the same object as the whole response.
\<close>

theorem parseA2SInfo_truncated_returns:
  "parseA2SInfo
     (take 6 [0xFF, 0xFF, 0xFF, 0xFF, 0x11, 0x61, 0x62, 0, 0x6D, 0, 0x66, 0, 0x67, 0, 3, 16, 0, 0x64, 0x6C, 0, 1, 0x31, 0]) =
   Inr \<lparr>info_protocol = Some 0x11, info_name = \<lparr>str_value = ''a'', str_length = 1\<rparr>,
          info_map = [], info_folder = [], info_game = [], info_players = None,
          info_max_players = None, info_bots = None, info_server_type = [char_of (0 :: nat)],
          info_environment = [char_of (0 :: nat)], info_visibility = None, info_vac = None,
          info_version = [], info_port = 0, info_tags = []\<rparr> \<and>
   parseA2SInfo
     (take 9 [0xFF, 0xFF, 0xFF, 0xFF, 0x11, 0x61, 0x62, 0, 0x6D, 0, 0x66, 0, 0x67, 0, 3, 16, 0, 0x64, 0x6C, 0, 1, 0x31, 0]) =
   Inr \<lparr>info_protocol = Some 0x11, info_name = \<lparr>str_value = ''ab'', str_length = 2\<rparr>,
          info_map = ''m'', info_folder = [], info_game = [], info_players = None,
          info_max_players = None, info_bots = None, info_server_type = [char_of (0 :: nat)],
          info_environment = [char_of (0 :: nat)], info_visibility = None, info_vac = None,
          info_version = [], info_port = 0, info_tags = []\<rparr> \<and>
   parseA2SInfo
     (butlast [0xFF, 0xFF, 0xFF, 0xFF, 0x11, 0x61, 0x62, 0, 0x6D, 0, 0x66, 0, 0x67, 0, 3, 16, 0, 0x64, 0x6C, 0, 1, 0x31, 0]) =
   Inr \<lparr>info_protocol = Some 0x11, info_name = \<lparr>str_value = ''ab'', str_length = 2\<rparr>,
          info_map = ''m'', info_folder = ''f'', info_game = ''g'', info_players = Some 3,
          info_max_players = Some 16, info_bots = Some 0, info_server_type = ''d'',
          info_environment = ''l'', info_visibility = Some 0, info_vac = Some 1,
          info_version = ''1'', info_port = 0, info_tags = []\<rparr>"
  by code_simp

text \<open>
  Claim C10 (the name field is the result object of the scan).  For every buffer the
  decoder accepts, \<open>name\<close> is the object \<open>{value, length}\<close> that \<open>readString\<close> returns at
  offset 5, while \<open>map\<close>, \<open>folder\<close>, \<open>game\<close> and \<open>version\<close> are the \<open>value\<close> strings of
  their scans.  Saving the server binds that object as the text \<open>[object Object]\<close>, which
  is the name of the one row the server then has, and the dashboard queries turn exactly
  this text into \<open>Unknown Server\<close>.
\<close>

theorem parseA2SInfo_name_is_object:
  assumes "parseA2SInfo buffer = Inr info"
  shows "info_name info = readString buffer 5 \<and>
     info_map info = str_value (readString buffer (6 + str_length (readString buffer 5))) \<and>
     (\<exists>offset. info_folder info = str_value (readString buffer offset)) \<and>
     (\<exists>offset. info_game info = str_value (readString buffer offset)) \<and>
     (\<exists>offset. info_version info = str_value (readString buffer offset)) \<and>
     (\<exists>db'. saveServerData Stored now ip port (Some info) playerInfo db = Inr db' \<and>
        map srv_name (filter (same_server ip port) (servers_table db')) =
          [SqlText ''[object Object]'']) \<and>
     dashboard_name (SqlText ''[object Object]'') = SqlText ''Unknown Server''"
proof (intro conjI)
  from assms show "info_name info = readString buffer 5"
    by (auto simp: parseA2SInfo_def Let_def)
  from assms show "info_map info = str_value (readString buffer (6 + str_length (readString buffer 5)))"
    by (auto simp: parseA2SInfo_def Let_def)
  from assms show "\<exists>offset. info_folder info = str_value (readString buffer offset)"
    by (auto simp: parseA2SInfo_def Let_def)
  from assms show "\<exists>offset. info_game info = str_value (readString buffer offset)"
    by (auto simp: parseA2SInfo_def Let_def)
  from assms show "\<exists>offset. info_version info = str_value (readString buffer offset)"
    by (auto simp: parseA2SInfo_def Let_def)
  show "\<exists>db'. saveServerData Stored now ip port (Some info) playerInfo db = Inr db' \<and>
        map srv_name (filter (same_server ip port) (servers_table db')) =
          [SqlText ''[object Object]'']"
    by (simp add: saveServerData_def Let_def insertServer_def createSnapshot_def same_server_def
        inserted_server_row_def js_or_def truthy_def sql_bind_def)
  show "dashboard_name (SqlText ''[object Object]'') = SqlText ''Unknown Server''"
    by (simp add: dashboard_name_def sql_eq_def)
qed

text \<open>The theorem at the well-formed response above.\<close>

theorem parseA2SInfo_name_is_object_witness:
  "parseA2SInfo
     [0xFF, 0xFF, 0xFF, 0xFF, 0x11, 0x61, 0x62, 0, 0x6D, 0, 0x66, 0, 0x67, 0, 3, 16, 0, 0x64, 0x6C, 0, 1, 0x31, 0] =
   Inr \<lparr>info_protocol = Some 0x11, info_name = \<lparr>str_value = ''ab'', str_length = 2\<rparr>,
          info_map = ''m'', info_folder = ''f'', info_game = ''g'', info_players = Some 3,
          info_max_players = Some 16, info_bots = Some 0, info_server_type = ''d'',
          info_environment = ''l'', info_visibility = Some 0, info_vac = Some 1,
          info_version = ''1'', info_port = 0, info_tags = []\<rparr> \<and>
   info_name \<lparr>info_protocol = Some 0x11, info_name = \<lparr>str_value = ''ab'', str_length = 2\<rparr>,
          info_map = ''m'', info_folder = ''f'', info_game = ''g'', info_players = Some 3,
          info_max_players = Some 16, info_bots = Some 0, info_server_type = ''d'',
          info_environment = ''l'', info_visibility = Some 0, info_vac = Some 1,
          info_version = ''1'', info_port = 0, info_tags = []\<rparr> =
     readString
       [0xFF, 0xFF, 0xFF, 0xFF, 0x11, 0x61, 0x62, 0, 0x6D, 0, 0x66, 0, 0x67, 0, 3, 16, 0, 0x64, 0x6C, 0, 1, 0x31, 0] 5 \<and>
   readString
     [0xFF, 0xFF, 0xFF, 0xFF, 0x11, 0x61, 0x62, 0, 0x6D, 0, 0x66, 0, 0x67, 0, 3, 16, 0, 0x64, 0x6C, 0, 1, 0x31, 0] 5 =
     \<lparr>str_value = ''ab'', str_length = 2\<rparr> \<and>
   dashboard_name (SqlText ''[object Object]'') = SqlText ''Unknown Server''"
proof -
  note ex = parseA2SInfo_example
  from parseA2SInfo_name_is_object [OF ex]
  have "info_name \<lparr>info_protocol = Some 0x11, info_name = \<lparr>str_value = ''ab'', str_length = 2\<rparr>,
          info_map = ''m'', info_folder = ''f'', info_game = ''g'', info_players = Some 3,
          info_max_players = Some 16, info_bots = Some 0, info_server_type = ''d'',
          info_environment = ''l'', info_visibility = Some 0, info_vac = Some 1,
          info_version = ''1'', info_port = 0, info_tags = []\<rparr> =
     readString
       [0xFF, 0xFF, 0xFF, 0xFF, 0x11, 0x61, 0x62, 0, 0x6D, 0, 0x66, 0, 0x67, 0, 3, 16, 0, 0x64, 0x6C, 0, 1, 0x31, 0] 5"
    and "dashboard_name (SqlText ''[object Object]'') = SqlText ''Unknown Server''"
    by blast+
  moreover have "readString
     [0xFF, 0xFF, 0xFF, 0xFF, 0x11, 0x61, 0x62, 0, 0x6D, 0, 0x66, 0, 0x67, 0, 3, 16, 0, 0x64, 0x6C, 0, 1, 0x31, 0] 5 =
     \<lparr>str_value = ''ab'', str_length = 2\<rparr>"
    by code_simp
  ultimately show ?thesis using ex by blast
qed

section \<open>Properties of the probe\<close>

lemma queryServerPlayers_empty:
  "queryServerPlayers (Message [0xFF, 0xFF, 0xFF, 0xFF, 0x44, 0]) = Inr []"
  by (simp add: queryServerPlayers_def parseA2SPlayer_def buf_at_def to_int32_def)

text \<open>
  Claim C1 (online when either query succeeds).  When the info query times out, the
  probe takes the offline path whatever the player query delivers, also when it
  succeeds, as it does for the datagram of a server with no players: \<open>Promise.all\<close> is
  rejected by the first rejection and \<open>queryServer\<close> goes to its \<open>catch\<close> block.  The
  same holds when the player query times out and the info query succeeds.  On the
  offline path no server row and no snapshot is written and the offline counter grows.
\<close>

theorem queryServer_one_query_fails:
  "queryServerPlayers (Message [0xFF, 0xFF, 0xFF, 0xFF, 0x44, 0]) = Inr [] \<and>
   queryServer Timeout (Message [0xFF, 0xFF, 0xFF, 0xFF, 0x44, 0]) st now serverAddress ip serverPort sc =
     probe_offline now ip serverPort sc \<and>
   queryServer Timeout players st now serverAddress ip serverPort sc =
     probe_offline now ip serverPort sc \<and>
   queryServer info Timeout st now serverAddress ip serverPort sc =
     probe_offline now ip serverPort sc \<and>
   server_snapshots_table (scanner_db (probe_offline now ip serverPort sc)) =
     server_snapshots_table (scanner_db sc) \<and>
   length (servers_table (scanner_db (probe_offline now ip serverPort sc))) =
     length (servers_table (scanner_db sc)) \<and>
   onlineServers (scanStats (probe_offline now ip serverPort sc)) = onlineServers (scanStats sc) \<and>
   offlineServers (scanStats (probe_offline now ip serverPort sc)) =
     offlineServers (scanStats sc) + 1"
proof -
  have timeout: "queryServer Timeout p st now serverAddress ip serverPort sc =
     probe_offline now ip serverPort sc" for p
    by (simp add: queryServer_def queryServerInfo_def promise_all_def)
  show ?thesis
  proof (intro conjI)
  show "queryServerPlayers (Message [0xFF, 0xFF, 0xFF, 0xFF, 0x44, 0]) = Inr []"
    by (rule queryServerPlayers_empty)
  show "queryServer Timeout players st now serverAddress ip serverPort sc =
     probe_offline now ip serverPort sc"
    by (rule timeout)
  show "queryServer Timeout (Message [0xFF, 0xFF, 0xFF, 0xFF, 0x44, 0]) st now serverAddress ip
      serverPort sc = probe_offline now ip serverPort sc"
    by (rule timeout)
  show "queryServer info Timeout st now serverAddress ip serverPort sc =
     probe_offline now ip serverPort sc"
    by (simp add: queryServer_def queryServerPlayers_def promise_all_def split: sum.splits)
  qed (simp_all add: probe_offline_def markServerOffline_def)
qed

section \<open>Properties of the rate limiter\<close>

text \<open>
  Claim C5 (no window holds more than the cap).  With a cap of 3 requests per window
  of 1000 ms, seven requests made back-to-back from time 0 are issued at the times
  0, 0, 0, 1000, 1000, 1000, 1000.  The fourth waits until 1000, one window after the
  first, as the claim says.  But it is recorded with the time 0 read before its wait,
  so the history is empty again at 1000 and the next three calls pass at once: the
  window that starts at 1000 holds four issued requests, one more than the cap.
\<close>

theorem rate_limit_window_overrun:
  "back_to_back 7 0 \<lparr>rateLimitWindow = 1000, maxRequestsPerWindow = 3, requestHistory = []\<rparr> =
     [0, 0, 0, 1000, 1000, 1000, 1000] \<and>
   issued_within
     (back_to_back 7 0 \<lparr>rateLimitWindow = 1000, maxRequestsPerWindow = 3, requestHistory = []\<rparr>)
     1000 1000 = 4"
proof -
  have "back_to_back 7 0 \<lparr>rateLimitWindow = 1000, maxRequestsPerWindow = 3, requestHistory = []\<rparr> =
     [0, 0, 0, 1000, 1000, 1000, 1000]"
    by (simp add: eval_nat_numeral checkRateLimit_def waitTime_def timer_delay_def Let_def)
  then show ?thesis
    by (simp add: issued_within_def)
qed

section \<open>Properties of the enrichment queue\<close>

lemma compare_items_le_iff: "compare_items a b \<le> 0 \<longleftrightarrow> item_before a b"
  by (auto simp: compare_items_def item_before_def)

lemma item_before_trans: "item_before a b \<Longrightarrow> item_before b c \<Longrightarrow> item_before a c"
  by (auto simp: item_before_def)

lemma item_before_total: "item_before a b \<or> item_before b a"
  by (auto simp: item_before_def)

lemma set_insert_item: "set (insert_item x ys) = insert x (set ys)"
  by (induction ys) auto

lemma sorted_insert_item:
  "sorted_wrt item_before ys \<Longrightarrow> sorted_wrt item_before (insert_item x ys)"
proof (induction ys)
  case Nil
  then show ?case by simp
next
  case (Cons y ys)
  show ?case
  proof (cases "compare_items x y \<le> 0")
    case True
    then have xy: "item_before x y" by (simp add: compare_items_le_iff)
    have "\<forall>z\<in>set ys. item_before x z"
      using Cons.prems xy by (auto intro: item_before_trans)
    with True xy Cons.prems show ?thesis by simp
  next
    case False
    then have "item_before y x"
      using item_before_total [of x y] by (simp add: compare_items_le_iff)
    with False Cons show ?thesis by (auto simp: set_insert_item)
  qed
qed

lemma sorted_sort_queue: "sorted_wrt item_before (sort_queue queue)"
  unfolding sort_queue_def by (induction queue) (simp_all add: sorted_insert_item)

lemma sorted_wrt_take_items: "sorted_wrt P xs \<Longrightarrow> sorted_wrt P (take n xs)"
  by (metis append_take_drop_id sorted_wrt_append)

text \<open>
  The sort is stable: items of one priority class with the same \<open>addedAt\<close> keep the
  order they had.
\<close>

lemma filter_insert_item:
  "filter (\<lambda>x. (qi_priority x = ''high'') = c \<and> qi_addedAt x = t) (insert_item x ys) =
   filter (\<lambda>x. (qi_priority x = ''high'') = c \<and> qi_addedAt x = t) (x # ys)"
proof (induction ys)
  case Nil
  show ?case by simp
next
  case (Cons y ys)
  show ?case
  proof (cases "compare_items x y \<le> 0")
    case True
    then show ?thesis by simp
  next
    case False
    then have "\<not> item_before x y" by (simp add: compare_items_le_iff)
    then have "\<not> (((qi_priority x = ''high'') = c \<and> qi_addedAt x = t) \<and>
                 ((qi_priority y = ''high'') = c \<and> qi_addedAt y = t))"
      by (auto simp: item_before_def)
    with False Cons show ?thesis by auto
  qed
qed

lemma filter_sort_queue:
  "filter (\<lambda>x. (qi_priority x = ''high'') = c \<and> qi_addedAt x = t) (sort_queue queue) =
   filter (\<lambda>x. (qi_priority x = ''high'') = c \<and> qi_addedAt x = t) queue"
  unfolding sort_queue_def by (induction queue) (simp_all add: filter_insert_item)

lemma take_batch_append:
  "fst (take_batch svc) @ processingQueue (snd (take_batch svc)) = sort_queue (processingQueue svc)"
  by (simp add: take_batch_def Let_def)

text \<open>
  Claim C7 as stated: within a priority class the more recently enqueued items come
  first.  A running worker is given the normal item \<open>a\<close>, then the normal item \<open>b\<close> and
  then the high-priority item \<open>h\<close>, all within the millisecond 5.  The queue holds items
  of both priorities, and the next batch is \<open>h\<close>, \<open>a\<close>, \<open>b\<close>: of the two normal items the
  one enqueued first comes out first.
\<close>

theorem queue_same_millisecond_counterexample:
  "(case addToQueue [(''a'', 5)] ''normal''
           \<lparr>processingQueue = [], isProcessing = True, batchSize = 50\<rparr> of
      (batch1, svc1) \<Rightarrow>
        (case addToQueue [(''b'', 5)] ''normal'' svc1 of
           (batch2, svc2) \<Rightarrow>
             (case addToQueue [(''h'', 5)] ''high'' svc2 of
                (batch3, svc3) \<Rightarrow>
                  (batch1, batch2, batch3, map qi_steamId (processingQueue svc3),
                   map qi_steamId (fst (take_batch svc3)))))) =
   (None, None, None, [''h'', ''a'', ''b''], [''h'', ''a'', ''b''])"
  by code_simp

text \<open>
  Claim C7, amended (batch order).  In every batch the worker takes, no normal-priority
  item stands in front of a high-priority one, and within one priority class no item
  stands in front of one with a later \<open>addedAt\<close>, the reading of the millisecond clock at
  which it was enqueued.  Items of one priority class with the same \<open>addedAt\<close> keep the
  order they had in the queue, through the batch and what is left behind it; for normal
  items, which are appended, that is the older one first.  The batch has \<open>batchSize\<close>
  items, or the whole queue when it is shorter.  In particular, whether or not the
  worker is running: after two normal items are enqueued on an empty queue and then one
  high-priority item, the second call takes no batch itself, and the next batch the
  worker takes begins with the high-priority item.
\<close>

theorem queue_batch_order:
  "sorted_wrt (\<lambda>a b. (qi_priority b = ''high'' \<longrightarrow> qi_priority a = ''high'') \<and>
        ((qi_priority a = ''high'') = (qi_priority b = ''high'') \<longrightarrow> qi_addedAt b \<le> qi_addedAt a))
     (fst (take_batch svc)) \<and>
   filter (\<lambda>x. (qi_priority x = ''high'') = c \<and> qi_addedAt x = t)
     (fst (take_batch svc) @ processingQueue (snd (take_batch svc))) =
   filter (\<lambda>x. (qi_priority x = ''high'') = c \<and> qi_addedAt x = t) (processingQueue svc) \<and>
   length (fst (take_batch svc)) = min (batchSize svc) (length (processingQueue svc)) \<and>
   (0 < bs \<longrightarrow>
     (case addToQueue [(na, ta), (nb, tc)] ''normal''
             \<lparr>processingQueue = [], isProcessing = running, batchSize = bs\<rparr> of
        (batch1, svc1) \<Rightarrow>
          (case addToQueue [(h, tb)] ''high'' svc1 of
             (batch2, svc2) \<Rightarrow>
               batch2 = None \<and>
               hd (fst (take_batch svc2)) =
                 \<lparr>qi_steamId = h, qi_priority = ''high'', qi_addedAt = tb, qi_retryCount = 0\<rparr>)))"
proof (intro conjI impI)
  have "sorted_wrt item_before (fst (take_batch svc))"
    by (simp add: take_batch_def Let_def sorted_wrt_take_items sorted_sort_queue)
  then show "sorted_wrt (\<lambda>a b. (qi_priority b = ''high'' \<longrightarrow> qi_priority a = ''high'') \<and>
        ((qi_priority a = ''high'') = (qi_priority b = ''high'') \<longrightarrow> qi_addedAt b \<le> qi_addedAt a))
     (fst (take_batch svc))"
    by (simp add: item_before_def [abs_def])
next
  show "filter (\<lambda>x. (qi_priority x = ''high'') = c \<and> qi_addedAt x = t)
     (fst (take_batch svc) @ processingQueue (snd (take_batch svc))) =
   filter (\<lambda>x. (qi_priority x = ''high'') = c \<and> qi_addedAt x = t) (processingQueue svc)"
    unfolding take_batch_append by (rule filter_sort_queue)
next
  have "length (sort_queue queue) = length queue" for queue
    unfolding sort_queue_def
  proof (induction queue)
    case Nil
    show ?case by simp
  next
    case (Cons x queue)
    have "length (insert_item x ys) = Suc (length ys)" for ys
      by (induction ys) simp_all
    with Cons show ?case by simp
  qed
  then show "length (fst (take_batch svc)) = min (batchSize svc) (length (processingQueue svc))"
    by (simp add: take_batch_def Let_def min.commute)
next
  assume bs: "0 < bs"
  show "case addToQueue [(na, ta), (nb, tc)] ''normal''
             \<lparr>processingQueue = [], isProcessing = running, batchSize = bs\<rparr> of
        (batch1, svc1) \<Rightarrow>
          (case addToQueue [(h, tb)] ''high'' svc1 of
             (batch2, svc2) \<Rightarrow>
               batch2 = None \<and>
               hd (fst (take_batch svc2)) =
                 \<lparr>qi_steamId = h, qi_priority = ''high'', qi_addedAt = tb, qi_retryCount = 0\<rparr>)"
  proof (cases running)
    case True
    with bs show ?thesis
      by (simp add: addToQueue_def processQueue_def take_batch_def enqueue_def queueItems_def
          sort_queue_def compare_items_def Let_def)
  next
    case False
    with bs show ?thesis
      by (cases bs; cases "bs - 1")
         (simp_all add: addToQueue_def processQueue_def take_batch_def enqueue_def queueItems_def
          sort_queue_def compare_items_def Let_def)
  qed
qed

text \<open>
  The theorem at a queue of three normal and two high-priority items, the normal items
  \<open>a\<close> and \<open>b\<close> and the high-priority item \<open>c\<close> added in the millisecond 5, and at the
  scenario with the default batch size and an idle worker.
\<close>

theorem queue_batch_order_witness:
  "map qi_steamId
     (fst (take_batch
        \<lparr>processingQueue =
           [\<lparr>qi_steamId = ''a'', qi_priority = ''normal'', qi_addedAt = 5, qi_retryCount = 0\<rparr>,
            \<lparr>qi_steamId = ''b'', qi_priority = ''normal'', qi_addedAt = 5, qi_retryCount = 0\<rparr>,
            \<lparr>qi_steamId = ''c'', qi_priority = ''high'', qi_addedAt = 5, qi_retryCount = 0\<rparr>,
            \<lparr>qi_steamId = ''d'', qi_priority = ''high'', qi_addedAt = 7, qi_retryCount = 0\<rparr>,
            \<lparr>qi_steamId = ''e'', qi_priority = ''normal'', qi_addedAt = 9, qi_retryCount = 0\<rparr>],
          isProcessing = True, batchSize = 50\<rparr>)) = [''d'', ''c'', ''e'', ''a'', ''b''] \<and>
   (0 :: nat) < 50 \<and>
   (case addToQueue [(''n1'', 10), (''n2'', 10)] ''normal''
           \<lparr>processingQueue = [], isProcessing = False, batchSize = 50\<rparr> of
      (batch1, svc1) \<Rightarrow>
        (case addToQueue [(''h'', 11)] ''high'' svc1 of
           (batch2, svc2) \<Rightarrow>
             batch2 = None \<and>
             hd (fst (take_batch svc2)) =
               \<lparr>qi_steamId = ''h'', qi_priority = ''high'', qi_addedAt = 11, qi_retryCount = 0\<rparr>))"
proof -
  have bs: "(0 :: nat) < 50" by simp
  have "case addToQueue [(''n1'', 10), (''n2'', 10)] ''normal''
           \<lparr>processingQueue = [], isProcessing = False, batchSize = 50\<rparr> of
      (batch1, svc1) \<Rightarrow>
        (case addToQueue [(''h'', 11)] ''high'' svc1 of
           (batch2, svc2) \<Rightarrow>
             batch2 = None \<and>
             hd (fst (take_batch svc2)) =
               \<lparr>qi_steamId = ''h'', qi_priority = ''high'', qi_addedAt = 11, qi_retryCount = 0\<rparr>)"
    by (rule queue_batch_order [where bs = 50 and na = "''n1''" and nb = "''n2''" and ta = 10 and tc = 10
        and running = False and h = "''h''" and tb = 11, THEN conjunct2, THEN conjunct2,
        THEN conjunct2, THEN mp, OF bs])
  moreover have "map qi_steamId
     (fst (take_batch
        \<lparr>processingQueue =
           [\<lparr>qi_steamId = ''a'', qi_priority = ''normal'', qi_addedAt = 5, qi_retryCount = 0\<rparr>,
            \<lparr>qi_steamId = ''b'', qi_priority = ''normal'', qi_addedAt = 5, qi_retryCount = 0\<rparr>,
            \<lparr>qi_steamId = ''c'', qi_priority = ''high'', qi_addedAt = 5, qi_retryCount = 0\<rparr>,
            \<lparr>qi_steamId = ''d'', qi_priority = ''high'', qi_addedAt = 7, qi_retryCount = 0\<rparr>,
            \<lparr>qi_steamId = ''e'', qi_priority = ''normal'', qi_addedAt = 9, qi_retryCount = 0\<rparr>],
          isProcessing = True, batchSize = 50\<rparr>)) = [''d'', ''c'', ''e'', ''a'', ''b'']"
    by (simp add: take_batch_def sort_queue_def compare_items_def Let_def)
  ultimately show ?thesis using bs by simp
qed
section \<open>Properties of the classifiers\<close>

lemma fl_nonneg: "0 \<le> x \<Longrightarrow> 0 \<le> fl x"
  using fl_mono [of 0 x] by (simp add: fl_0)

lemma pattern_score_mono:
  "m \<le> n \<Longrightarrow> pattern_score m len \<le> pattern_score n len"
proof -
  assume mn: "m \<le> n"
  have a: "(of_nat m :: rat) / of_nat len \<le> of_nat n / of_nat len"
    using mn by (simp add: divide_right_mono)
  have "js_div (of_nat m) (of_nat len) \<le> js_div (of_nat n) (of_nat len)"
    unfolding js_div_def by (rule fl_mono) (use a in simp_all)
  moreover have "0 \<le> js_div (of_nat m) (of_nat len)"
    unfolding js_div_def by (rule fl_nonneg) simp
  ultimately show ?thesis
    unfolding pattern_score_def js_add_def by (intro fl_mono) simp_all
qed

lemma pattern_score_pos: "0 < pattern_score m len"
proof -
  have "0 \<le> js_div (of_nat m) (of_nat len)"
    unfolding js_div_def by (rule fl_nonneg) simp
  then have "fl (1 / 2) \<le> pattern_score m len"
    unfolding pattern_score_def js_add_def by (intro fl_mono) simp_all
  then show ?thesis by (simp add: fl_half)
qed

lemma regex_test_iff: "regex_test p text \<longleftrightarrow> match_length p text \<noteq> None"
  by (simp add: regex_test_def match_length_def split: option.splits)

text \<open>The running maximum of the loop.\<close>

lemma snd_gamemode_step:
  "snd (gamemode_step text best (g, p)) =
     (case match_length p text of None \<Rightarrow> snd best
      | Some n \<Rightarrow> max (snd best) (pattern_score n (length text)))"
  by (auto simp: gamemode_step_def regex_test_iff Let_def max_def split: option.splits)

text \<open>After the loop \<open>highestScore\<close> is the score of the longest match.\<close>

lemma longer_span_score:
  "(case longer_span a b of None \<Rightarrow> h | Some n \<Rightarrow> max h (pattern_score n len)) =
   (case b of
      None \<Rightarrow> (case a of None \<Rightarrow> h | Some m \<Rightarrow> max h (pattern_score m len))
    | Some n \<Rightarrow> max (case a of None \<Rightarrow> h | Some m \<Rightarrow> max h (pattern_score m len))
                  (pattern_score n len))"
proof (cases a)
  case None
  then show ?thesis by (cases b) (simp_all add: longer_span_def)
next
  case a: (Some m)
  show ?thesis
  proof (cases b)
    case None
    with a show ?thesis by (simp add: longer_span_def)
  next
    case b: (Some n)
    show ?thesis
    proof (cases "m \<le> n")
      case True
      from pattern_score_mono [OF True, of len] True show ?thesis
        by (simp add: a b longer_span_def max_def)
    next
      case False
      then have "n \<le> m" by simp
      from pattern_score_mono [OF this, of len] False show ?thesis
        by (simp add: a b longer_span_def max_def)
    qed
  qed
qed

lemma highest_score_span:
  "snd (foldl (gamemode_step text) best ps) =
     (case foldl (\<lambda>best entry. longer_span best (match_length (snd entry) text)) None ps of
        None \<Rightarrow> snd best
      | Some n \<Rightarrow> max (snd best) (pattern_score n (length text)))"
proof (induction ps rule: rev_induct)
  case Nil
  show ?case by simp
next
  case (snoc entry ps)
  obtain g p where entry: "entry = (g, p)" by (cases entry)
  show ?case
    unfolding entry
    by (cases "match_length p text")
       (simp_all add: snd_gamemode_step snoc.IH longer_span_score [where h = "snd best"])
qed

text \<open>Once a pattern has matched, \<open>bestMatch\<close> holds the name of some pattern.\<close>

lemma fst_gamemode_step_keeps:
  "fst best \<in> Some ` G \<Longrightarrow> g \<in> G \<Longrightarrow> fst (gamemode_step text best (g, p)) \<in> Some ` G"
  by (auto simp: gamemode_step_def Let_def)

lemma fst_foldl_keeps:
  "fst best \<in> Some ` G \<Longrightarrow> fst ` set ps \<subseteq> G \<Longrightarrow>
   fst (foldl (gamemode_step text) best ps) \<in> Some ` G"
proof (induction ps arbitrary: best)
  case Nil
  then show ?case by simp
next
  case (Cons entry ps)
  obtain g p where entry: "entry = (g, p)" by (cases entry)
  have "fst (gamemode_step text best (g, p)) \<in> Some ` G"
    using Cons.prems entry by (intro fst_gamemode_step_keeps) auto
  then show ?case
    unfolding entry using Cons.prems(2) by (simp add: Cons.IH)
qed

lemma gamemode_step_first_match:
  "regex_test p text \<Longrightarrow> fst (gamemode_step text (None, 0) (g, p)) = Some g"
  using pattern_score_pos
  by (auto simp: gamemode_step_def regex_test_iff Let_def split: option.splits)


lemma is_word_char_d: "is_word_char CHR ''d''"
  by (simp add: is_word_char_def)

lemma is_word_char_p: "is_word_char CHR ''p''"
  by (simp add: is_word_char_def)

text \<open>
  A blob in which \<open>darkrp\<close> stands as a whole word is matched by every pattern
  \<open>/\b(darkrp|\<dots>)\b/i\<close>, at the latest where the word starts.
\<close>

lemma darkrp_word_found:
  assumes split: "text = pre @ ''darkrp'' @ post"
    and left: "pre = [] \<or> \<not> is_word_char (last pre)"
    and right: "post = [] \<or> \<not> is_word_char (hd post)"
  shows "regex_test (whole_word (Alt (Lit ''darkrp'') r)) text"
proof -
  let ?i = "length pre"
  have len: "length text = ?i + 6 + length post" by (simp add: split)
  have "\<not> (0 < ?i \<and> ?i \<le> length text \<and> is_word_char (text ! (?i - 1)))"
    using left by (cases "pre = []") (simp_all add: split nth_append last_conv_nth)
  moreover have "?i < length text \<and> is_word_char (text ! ?i)"
    by (simp add: split nth_append is_word_char_d)
  ultimately have b1: "at_boundary text ?i"
    unfolding at_boundary_def by blast
  have lit: "match_ends (Lit ''darkrp'') text ?i = [?i + 6]"
    by (simp add: split)
  have "0 < ?i + 6 \<and> ?i + 6 \<le> length text \<and> is_word_char (text ! (?i + 6 - 1))"
    by (simp add: split nth_append is_word_char_p)
  moreover have "\<not> (?i + 6 < length text \<and> is_word_char (text ! (?i + 6)))"
    using right by (cases "post = []") (simp_all add: split nth_append hd_conv_nth)
  ultimately have b2: "at_boundary text (?i + 6)"
    unfolding at_boundary_def by blast
  have "match_ends (whole_word (Alt (Lit ''darkrp'') r)) text ?i \<noteq> []"
    unfolding whole_word_def using b1 b2 lit by simp
  moreover have "?i \<in> set [0..<Suc (length text)]"
    by (simp add: len)
  ultimately have "filter (\<lambda>i. match_ends (whole_word (Alt (Lit ''darkrp'') r)) text i \<noteq> [])
      [0..<Suc (length text)] \<noteq> []"
    by (simp only: filter_empty_conv) blast
  then show ?thesis
    by (auto simp: regex_test_def regex_exec_def split: list.splits)
qed


lemma gamemode_step_no_match:
  "\<not> regex_test p text \<Longrightarrow> gamemode_step text best (g, p) = best"
  by (simp add: gamemode_step_def)

lemma foldl_gamemode_step_no_match:
  "list_all (\<lambda>(g, p). \<not> regex_test p text) ps \<Longrightarrow> foldl (gamemode_step text) best ps = best"
  by (induction ps arbitrary: best) (auto simp: gamemode_step_no_match)

lemma gamemodePatterns_names: "list_all (\<lambda>(g, p). known_name g) gamemodePatterns"
  unfolding known_name_def by code_simp

lemma gamemodePatterns_split:
  "gamemodePatterns =
     (''darkrp'', whole_word (Alt (Lit ''darkrp'')
        (Alt (Seq (Lit ''dark'') (Seq Whitespaces (Lit ''rp''))) (Alt (Lit ''roleplay'') (Lit ''rp'')))))
     # tl gamemodePatterns"
  by (simp add: gamemodePatterns_def)

lemma darkrp_word_not_unknown:
  assumes "text_blob serverData = pre @ ''darkrp'' @ post"
    and "pre = [] \<or> \<not> is_word_char (last pre)"
    and "post = [] \<or> \<not> is_word_char (hd post)"
  shows "gamemode (predictGamemodeRuleBased svc serverData) \<noteq> ''unknown''"
proof -
  let ?blob = "text_blob serverData"
  let ?r = "Alt (Seq (Lit ''dark'') (Seq Whitespaces (Lit ''rp''))) (Alt (Lit ''roleplay'') (Lit ''rp''))"
  let ?first = "(''darkrp'', whole_word (Alt (Lit ''darkrp'') ?r))"
  have "regex_test (whole_word (Alt (Lit ''darkrp'') ?r)) ?blob"
    using assms by (rule darkrp_word_found)
  then have "fst (gamemode_step ?blob (None, 0) ?first) = Some ''darkrp''"
    by (rule gamemode_step_first_match)
  moreover have "known_name ''darkrp''"
    by (simp add: known_name_def)
  ultimately have first: "fst (gamemode_step ?blob (None, 0) ?first) \<in> Some ` Collect known_name"
    by simp
  have "list_all (\<lambda>(g, p). known_name g) (?first # tl gamemodePatterns)"
    using gamemodePatterns_names by (subst (asm) gamemodePatterns_split)
  then have "fst ` set (tl gamemodePatterns) \<subseteq> Collect known_name"
    by (auto simp: list_all_iff)
  with first have "fst (foldl (gamemode_step ?blob) (gamemode_step ?blob (None, 0) ?first)
      (tl gamemodePatterns)) \<in> Some ` Collect known_name"
    by (rule fst_foldl_keeps)
  then have "fst (foldl (gamemode_step ?blob) (None, 0) gamemodePatterns) \<in> Some ` Collect known_name"
    by (subst gamemodePatterns_split) (simp only: foldl_Cons)
  then obtain g where g: "fst (foldl (gamemode_step ?blob) (None, 0) gamemodePatterns) = Some g"
    and known: "known_name g" by auto
  have "gamemode (predictGamemodeRuleBased svc serverData) = (if g = [] then ''unknown'' else g)"
    using g by (simp add: predictGamemodeRuleBased_def Let_def split_beta)
  with known show ?thesis by (simp add: known_name_def)
qed

text \<open>The confidence is set by the matched span and the length of the blob.\<close>

lemma cap_nonneg: "0 \<le> fl (95 / 100)"
  by (rule fl_nonneg) simp

lemma confidence_span:
  "gm_confidence (predictGamemodeRuleBased svc serverData) =
     (case matched_span (text_blob serverData) of
        None \<Rightarrow> 0
      | Some n \<Rightarrow> min (pattern_score n (length (text_blob serverData))) (fl (95 / 100)))"
proof -
  have "snd (foldl (gamemode_step (text_blob serverData)) (None, 0) gamemodePatterns) =
     (case matched_span (text_blob serverData) of
        None \<Rightarrow> 0
      | Some n \<Rightarrow> pattern_score n (length (text_blob serverData)))"
    using pattern_score_pos
    by (simp add: highest_score_span matched_span_def max_def less_imp_le split: option.splits)
  then show ?thesis
    using cap_nonneg
    by (simp add: predictGamemodeRuleBased_def Let_def split_beta split: option.splits)
qed

lemma confidence_mono_span:
  assumes "length (text_blob sd1) = length (text_blob sd2)"
    and "span_le (matched_span (text_blob sd1)) (matched_span (text_blob sd2))"
  shows "gm_confidence (predictGamemodeRuleBased svc sd1)
       \<le> gm_confidence (predictGamemodeRuleBased svc sd2)"
proof (cases "matched_span (text_blob sd1)")
  case None
  show ?thesis
  proof (cases "matched_span (text_blob sd2)")
    case n: None
    with None show ?thesis by (simp add: confidence_span)
  next
    case (Some n)
    have "0 \<le> pattern_score n (length (text_blob sd2))"
      using pattern_score_pos [of n "length (text_blob sd2)"] by simp
    with None Some cap_nonneg show ?thesis by (simp add: confidence_span)
  qed
next
  case (Some m)
  with assms(2) obtain n where n: "matched_span (text_blob sd2) = Some n" and mn: "m \<le> n"
    by (cases "matched_span (text_blob sd2)") (simp_all add: span_le_def)
  from pattern_score_mono [OF mn, of "length (text_blob sd2)"] show ?thesis
    by (simp add: confidence_span Some n assms(1) min.coboundedI1)
qed

lemma rule_share: "js_mul (8106479329266893 / 2 ^ 53) (5404319552844595 / 2 ^ 53) = 607985949695017 / 2 ^ 50"
  unfolding js_mul_def
  by (rule fl_eval [where n = 53, THEN trans]) (simp_all add: round_half_even_numeral)

lemma learned_share: "js_mul (3602879701896397 / 2 ^ 55) (3602879701896397 / 2 ^ 53) = 1441151880758559 / 2 ^ 55"
  unfolding js_mul_def
  by (rule fl_eval [where n = 57, THEN trans]) (simp_all add: round_half_even_numeral)

lemma blend_sum: "js_add (607985949695017 / 2 ^ 50) (1441151880758559 / 2 ^ 55) = 326510972984361 / 2 ^ 49"
  unfolding js_add_def
  by (rule fl_eval [where n = 53, THEN trans]) (simp_all add: round_half_even_numeral)

lemma rule_percent: "js_mul (8106479329266893 / 2 ^ 53) 100 = 90"
  unfolding js_mul_def
  by (rule fl_eval [where n = 46, THEN trans]) (simp_all add: round_half_even_numeral)

lemma learned_percent: "js_mul (3602879701896397 / 2 ^ 55) 100 = 10"
  unfolding js_mul_def
  by (rule fl_eval [where n = 49, THEN trans]) (simp_all add: round_half_even_numeral)

lemma Math_round_90: "Math_round 90 = 90"
  by (simp add: Math_round_def floor_eq_iff)

lemma Math_round_10: "Math_round 10 = 10"
  by (simp add: Math_round_def floor_eq_iff)

lemma decimal_90: "decimal 90 = ''90''"
  by (simp add: decimal.simps digit_char_def)

lemma decimal_10: "decimal 10 = ''10''"
  by (simp add: decimal.simps digit_char_def)

text \<open>The combiner at rule confidence \<open>0.9\<close> and learned confidence \<open>0.1\<close>.\<close>

lemma combine_example:
  "combinePolishPredictions MLService
     \<lparr>is_polish = rule_label, pp_confidence = fl (9 / 10), pp_needs_review = rule_review,
      pp_prediction_reason = rule_reason\<rparr>
     \<lparr>is_polish = ml_label, pp_confidence = fl (1 / 10), pp_needs_review = ml_review,
      pp_prediction_reason = ml_reason\<rparr> =
   \<lparr>is_polish = True, pp_confidence = 326510972984361 / 2 ^ 49, pp_needs_review = True,
    pp_prediction_reason = ''Combined: Rule=90%, ML=10%''\<rparr>"
  apply (simp only: combinePolishPredictions_def MLService_def Let_def polish_prediction.simps
      ml_service.simps fl_9_10 fl_1_10 fl_6_10 fl_4_10 fl_3_10 fl_7_10 rule_share learned_share
      blend_sum rule_percent learned_percent Math_round_90 Math_round_10)
  apply (simp add: decimal_int_def decimal_90 decimal_10)
  done


text \<open>
  Claim C8 as stated: at rule confidence \<open>0.9\<close> and learned confidence \<open>0.1\<close> the combined
  confidence is exactly \<open>0.58\<close>.  In binary64 arithmetic it is not: \<open>0.9 * 0.6\<close> rounds to
  \<open>0.54\<close>, \<open>0.1 * 0.4\<close> to \<open>0.04000000000000001\<close>, and their sum to
  \<open>0.5800000000000001\<close>, which is not the number \<open>0.58\<close>.
\<close>

theorem polish_combiner_exact_counterexample:
  "pp_confidence (combinePolishPredictions MLService
      \<lparr>is_polish = True, pp_confidence = fl (9 / 10), pp_needs_review = False,
       pp_prediction_reason = []\<rparr>
      \<lparr>is_polish = False, pp_confidence = fl (1 / 10), pp_needs_review = False,
       pp_prediction_reason = []\<rparr>) \<noteq> fl (58 / 100)"
  apply (simp only: combine_example polish_prediction.simps fl_58_100)
  apply simp
  done

text \<open>
  Claim C8, amended.  The combiner always blends: the confidence is the binary64 value
  of \<open>0.6 * rule + 0.4 * learned\<close>, each product and the sum rounded, and the label is
  \<open>confidence > 0.5\<close>.  At rule confidence \<open>0.9\<close> and learned confidence \<open>0.1\<close> the
  combined confidence is \<open>326510972984361 / 2^49 = 0.5800000000000001\<close>, which is the
  number \<open>0.58\<close> plus \<open>2^-53\<close>; the label is true, and \<open>needs_review\<close> is true because
  the confidence lies strictly between \<open>0.3\<close> and \<open>0.7\<close>.
\<close>

theorem polish_combiner_blend:
  "pp_confidence (combinePolishPredictions svc ruleBased ml) =
     js_add (js_mul (pp_confidence ruleBased) (fl (6 / 10)))
            (js_mul (pp_confidence ml) (fl (4 / 10))) \<and>
   is_polish (combinePolishPredictions svc ruleBased ml) =
     (1 / 2 < pp_confidence (combinePolishPredictions svc ruleBased ml)) \<and>
   combinePolishPredictions MLService
     \<lparr>is_polish = rule_label, pp_confidence = fl (9 / 10), pp_needs_review = rule_review,
      pp_prediction_reason = rule_reason\<rparr>
     \<lparr>is_polish = ml_label, pp_confidence = fl (1 / 10), pp_needs_review = ml_review,
      pp_prediction_reason = ml_reason\<rparr> =
     \<lparr>is_polish = True, pp_confidence = 326510972984361 / 2 ^ 49, pp_needs_review = True,
      pp_prediction_reason = ''Combined: Rule=90%, ML=10%''\<rparr> \<and>
   326510972984361 / 2 ^ 49 = fl (58 / 100) + 1 / 2 ^ 53 \<and>
   fl (3 / 10) < 326510972984361 / 2 ^ 49 \<and>
   326510972984361 / 2 ^ 49 < polishConfidenceThreshold MLService"
proof (intro conjI)
  show "pp_confidence (combinePolishPredictions svc ruleBased ml) =
     js_add (js_mul (pp_confidence ruleBased) (fl (6 / 10)))
            (js_mul (pp_confidence ml) (fl (4 / 10)))"
    by (simp add: combinePolishPredictions_def Let_def)
  show "is_polish (combinePolishPredictions svc ruleBased ml) =
     (1 / 2 < pp_confidence (combinePolishPredictions svc ruleBased ml))"
    by (simp add: combinePolishPredictions_def Let_def)
  show "combinePolishPredictions MLService
     \<lparr>is_polish = rule_label, pp_confidence = fl (9 / 10), pp_needs_review = rule_review,
      pp_prediction_reason = rule_reason\<rparr>
     \<lparr>is_polish = ml_label, pp_confidence = fl (1 / 10), pp_needs_review = ml_review,
      pp_prediction_reason = ml_reason\<rparr> =
     \<lparr>is_polish = True, pp_confidence = 326510972984361 / 2 ^ 49, pp_needs_review = True,
      pp_prediction_reason = ''Combined: Rule=90%, ML=10%''\<rparr>"
    by (rule combine_example)
  show "326510972984361 / 2 ^ 49 = fl (58 / 100) + 1 / 2 ^ 53"
    unfolding fl_58_100 by simp
  show "fl (3 / 10) < 326510972984361 / 2 ^ 49"
    unfolding fl_3_10 by simp
  show "326510972984361 / 2 ^ 49 < polishConfidenceThreshold MLService"
    unfolding MLService_def ml_service.simps fl_7_10 by simp
qed


lemma xdarkrp_blob:
  "text_blob \<lparr>ml_name = Some ''xdarkrp'', ml_tags = None, ml_map = None\<rparr> = ''xdarkrp  ''"
  by code_simp

lemma xdarkrp_no_match: "list_all (\<lambda>(g, p). \<not> regex_test p ''xdarkrp  '') gamemodePatterns"
  by code_simp

text \<open>
  Claim C9 as stated: a blob that contains \<open>darkrp\<close> is never classified \<open>unknown\<close>.
  The blob of a server named \<open>xdarkrp\<close> contains \<open>darkrp\<close>, but not as a whole word:
  every pattern asks for \<open>\b\<close> on both sides, none matches, and the result is \<open>unknown\<close>.
\<close>

theorem gamemode_contains_darkrp_counterexample:
  "text_blob \<lparr>ml_name = Some ''xdarkrp'', ml_tags = None, ml_map = None\<rparr> =
     ''x'' @ ''darkrp'' @ ''  '' \<and>
   gamemode (predictGamemodeRuleBased MLService
               \<lparr>ml_name = Some ''xdarkrp'', ml_tags = None, ml_map = None\<rparr>) = ''unknown''"
  using foldl_gamemode_step_no_match [OF xdarkrp_no_match, of "(None, 0)"]
  by (simp add: predictGamemodeRuleBased_def xdarkrp_blob)

text \<open>
  Claim C9, amended.  A blob in which \<open>darkrp\<close> stands as a whole word, with no letter,
  digit or underscore next to it on either side, is never classified \<open>unknown\<close>.  And for
  a fixed blob length the confidence is monotonically non-decreasing in the length of
  the matched span: it is zero when no detector matches and otherwise the score of the
  matched span, capped at \<open>0.95\<close>, so of two blobs of the same length the one with the
  longer matched span has at least the confidence of the other.
\<close>

theorem gamemode_rule_stage:
  "(text_blob serverData = pre @ ''darkrp'' @ post \<and>
    (pre = [] \<or> \<not> is_word_char (last pre)) \<and> (post = [] \<or> \<not> is_word_char (hd post)) \<longrightarrow>
    gamemode (predictGamemodeRuleBased svc serverData) \<noteq> ''unknown'') \<and>
   gm_confidence (predictGamemodeRuleBased svc serverData) =
     (case matched_span (text_blob serverData) of
        None \<Rightarrow> 0
      | Some n \<Rightarrow> min (pattern_score n (length (text_blob serverData))) (fl (95 / 100))) \<and>
   (length (text_blob sd1) = length (text_blob sd2) \<and>
    span_le (matched_span (text_blob sd1)) (matched_span (text_blob sd2)) \<longrightarrow>
    gm_confidence (predictGamemodeRuleBased svc sd1)
      \<le> gm_confidence (predictGamemodeRuleBased svc sd2))"
  using darkrp_word_not_unknown confidence_span confidence_mono_span by blast

text \<open>
  The theorem at a server named \<open>my darkrp\<close>, and at two servers named \<open>ttt xxxxx\<close> and
  \<open>jailbreak\<close>, whose blobs have eleven characters: in the first only the detector of
  \<open>ttt\<close> matches, three characters, and in the second only the detector of \<open>jailbreak\<close>,
  nine characters.
\<close>

lemma witness_blobs:
  "text_blob \<lparr>ml_name = Some ''my darkrp'', ml_tags = None, ml_map = None\<rparr> = ''my '' @ ''darkrp'' @ ''  ''"
  "text_blob \<lparr>ml_name = Some ''ttt xxxxx'', ml_tags = None, ml_map = None\<rparr> = ''ttt xxxxx  ''"
  "text_blob \<lparr>ml_name = Some ''jailbreak'', ml_tags = None, ml_map = None\<rparr> = ''jailbreak  ''"
  by code_simp+

lemma witness_spans:
  "matched_span ''ttt xxxxx  '' = Some 3"
  "matched_span ''jailbreak  '' = Some 9"
  by code_simp+

lemma witness_detectors:
  "map (\<lambda>(g, p). (match_length p ''ttt xxxxx  '', match_length p ''jailbreak  '')) gamemodePatterns =
     [(None, None), (None, None), (Some 3, None), (None, None), (None, None), (None, None),
      (None, Some 9), (None, None), (None, None), (None, None)]"
  by code_simp

theorem gamemode_rule_stage_witness:
  "text_blob \<lparr>ml_name = Some ''my darkrp'', ml_tags = None, ml_map = None\<rparr> =
     ''my '' @ ''darkrp'' @ ''  '' \<and>
   gamemode (predictGamemodeRuleBased MLService
               \<lparr>ml_name = Some ''my darkrp'', ml_tags = None, ml_map = None\<rparr>) \<noteq> ''unknown'' \<and>
   length (text_blob \<lparr>ml_name = Some ''ttt xxxxx'', ml_tags = None, ml_map = None\<rparr>) =
     length (text_blob \<lparr>ml_name = Some ''jailbreak'', ml_tags = None, ml_map = None\<rparr>) \<and>
   matched_span (text_blob \<lparr>ml_name = Some ''ttt xxxxx'', ml_tags = None, ml_map = None\<rparr>) = Some 3 \<and>
   matched_span (text_blob \<lparr>ml_name = Some ''jailbreak'', ml_tags = None, ml_map = None\<rparr>) = Some 9 \<and>
   gm_confidence (predictGamemodeRuleBased MLService
                    \<lparr>ml_name = Some ''ttt xxxxx'', ml_tags = None, ml_map = None\<rparr>)
     \<le> gm_confidence (predictGamemodeRuleBased MLService
                       \<lparr>ml_name = Some ''jailbreak'', ml_tags = None, ml_map = None\<rparr>)"
proof -
  let ?a = "\<lparr>ml_name = Some ''my darkrp'', ml_tags = None, ml_map = None\<rparr>"
  let ?b = "\<lparr>ml_name = Some ''ttt xxxxx'', ml_tags = None, ml_map = None\<rparr>"
  let ?c = "\<lparr>ml_name = Some ''jailbreak'', ml_tags = None, ml_map = None\<rparr>"
  have left: "''my '' = [] \<or> \<not> is_word_char (last ''my '')"
    by (simp add: is_word_char_def)
  have right: "''  '' = [] \<or> \<not> is_word_char (hd ''  '')"
    by (simp add: is_word_char_def)
  have unknown: "gamemode (predictGamemodeRuleBased MLService ?a) \<noteq> ''unknown''"
    by (rule gamemode_rule_stage [where pre = "''my ''" and post = "''  ''", THEN conjunct1, THEN mp])
       (intro conjI witness_blobs(1) left right)
  have len: "length (text_blob ?b) = length (text_blob ?c)"
    by (simp add: witness_blobs)
  have b: "matched_span (text_blob ?b) = Some 3"
    by (simp only: witness_blobs witness_spans)
  have c: "matched_span (text_blob ?c) = Some 9"
    by (simp only: witness_blobs witness_spans)
  have spans: "span_le (matched_span (text_blob ?b)) (matched_span (text_blob ?c))"
    by (simp add: b c span_le_def)
  have "gm_confidence (predictGamemodeRuleBased MLService ?b)
      \<le> gm_confidence (predictGamemodeRuleBased MLService ?c)"
    by (rule gamemode_rule_stage [THEN conjunct2, THEN conjunct2, THEN mp]) (intro conjI len spans)
  with unknown len b c show ?thesis
    by (simp only: witness_blobs(1) simp_thms)
qed
end
